theory Spec2Isabelle
  imports Main "HOL-Library.Word"
begin

section \<open>The WiMAX subscriber-station uplink scheduler (ss-scheduler.cc)\<close>

text \<open>
  The development embeds \<^verbatim>\<open>SSScheduler::Schedule\<close> and
  \<^verbatim>\<open>SSScheduler::SelectConnection\<close> of
  \<^verbatim>\<open>src/wimax/model/ss-scheduler.cc\<close>.  The scheduler consumes three collaborators
  whose code is not part of the sources at hand: the PHY, the MAC queue of a connection and
  the station with its service-flow registry.  Their operations are parameters of the
  embedding (records of functions), so that every theorem holds for any implementation of
  them; their types follow section 6 of the specification.
\<close>

subsection \<open>Enumerations\<close>

text \<open>
  Modelled from the spec: the enumerations \<^verbatim>\<open>MacHeaderType::HeaderType\<close>,
  \<^verbatim>\<open>Cid::Type\<close> and \<^verbatim>\<open>ServiceFlow::SchedulingType\<close> are declared in headers that
  are not among the sources; the constructors are the values the specification lists
  (section 3 and section 4.2), under the names the scheduler uses for them.
\<close>

datatype HeaderType = HEADER_TYPE_GENERIC | HEADER_TYPE_BANDWIDTH_REQUEST

datatype CidType = INITIAL_RANGING | BASIC | PRIMARY | BROADCAST | TRANSPORT

datatype SchedulingType = SF_TYPE_UGS | SF_TYPE_RTPS | SF_TYPE_NRTPS | SF_TYPE_BE

subsection \<open>Collaborators\<close>

text \<open>
  The PHY (\<^verbatim>\<open>m_ss->GetPhy()\<close>).  The modulation type \<open>'m\<close> is a parameter.  Symbol counts
  are \<^verbatim>\<open>uint16_t\<close>, byte counts \<^verbatim>\<open>uint32_t\<close>.  Durations and instants (\<^verbatim>\<open>Time\<close>) are
  integers in the simulator's time unit.
\<close>

type_synonym Time = int

record 'm WimaxPhy =
  GetNrBytes :: "16 word \<Rightarrow> 'm \<Rightarrow> 32 word"
  GetNrSymbols :: "32 word \<Rightarrow> 'm \<Rightarrow> 16 word"
  GetFrameDuration :: Time

text \<open>
  The MAC queue of a connection, as \<^verbatim>\<open>Schedule\<close> uses it through
  \<^verbatim>\<open>WimaxConnection\<close> and \<^verbatim>\<open>WimaxMacQueue\<close>.  \<open>'q\<close> is the state of a queue and \<open>'p\<close> the
  type of packets.  \<open>HasPackets\<close> is the query without a header type, \<open>HasPacketsOf\<close> the one
  with a header type.  \<open>Dequeue\<close> is \<^verbatim>\<open>Dequeue(packetType)\<close> and \<open>DequeueFragment\<close> is
  \<^verbatim>\<open>Dequeue(packetType, availableByte)\<close>; both return the packet and the queue left
  behind.  \<open>GetSize\<close> is \<^verbatim>\<open>Packet::GetSize\<close>.
\<close>

record ('q, 'p) WimaxMacQueue =
  HasPackets :: "'q \<Rightarrow> bool"
  HasPacketsOf :: "'q \<Rightarrow> HeaderType \<Rightarrow> bool"
  GetFirstPacketRequiredByte :: "'q \<Rightarrow> HeaderType \<Rightarrow> 32 word"
  GetFirstPacketHdrSize :: "'q \<Rightarrow> HeaderType \<Rightarrow> 32 word"
  CheckForFragmentation :: "'q \<Rightarrow> HeaderType \<Rightarrow> bool"
  Dequeue :: "'q \<Rightarrow> HeaderType \<Rightarrow> 'p \<times> 'q"
  DequeueFragment :: "'q \<Rightarrow> HeaderType \<Rightarrow> 32 word \<Rightarrow> 'p \<times> 'q"
  GetSize :: "'p \<Rightarrow> 32 word"

text \<open>
  A \<^verbatim>\<open>Ptr<WimaxConnection>\<close> is a reference; \<open>None\<close> is the null pointer.  The connections
  themselves live in the store \<open>conns\<close> of the station, so that a dequeue through one
  reference is seen through every other reference to the same connection.
\<close>

type_synonym conn_ref = nat

record 'q WimaxConnection =
  GetType :: CidType
  GetQueue :: 'q

text \<open>
  Modelled from the spec: \<^verbatim>\<open>ServiceFlow\<close> (service-flow.cc is not among the sources).  A
  service flow is a QoS binding that references one connection and carries the two
  intervals, in milliseconds, as 16-bit counts.
\<close>

record ServiceFlow =
  GetSchedulingType :: SchedulingType
  GetConnection :: conn_ref
  GetUnsolicitedGrantInterval :: "16 word"
  GetUnsolicitedPollingInterval :: "16 word"

text \<open>
  The station \<^verbatim>\<open>m_ss\<close>: the four fixed connections, the registry of service flows in
  insertion order, the store of connections, and the current simulation time
  (\<^verbatim>\<open>Simulator::Now()\<close>).
\<close>

record 'q SubscriberStation =
  GetInitialRangingConnection :: conn_ref
  GetBasicConnection :: conn_ref
  GetPrimaryConnection :: conn_ref
  GetBroadcastConnection :: conn_ref
  serviceFlows :: "ServiceFlow list"
  conns :: "conn_ref \<Rightarrow> 'q WimaxConnection"
  Now :: Time

text \<open>
  Modelled from the spec: \<^verbatim>\<open>ServiceFlowManager::GetServiceFlows\<close> returns the flows of
  one scheduling type as an ordered sequence, in registry insertion order.
\<close>

definition GetServiceFlows :: "'q SubscriberStation \<Rightarrow> SchedulingType \<Rightarrow> ServiceFlow list" where
  "GetServiceFlows ss t = filter (\<lambda>f. GetSchedulingType f = t) (serviceFlows ss)"

text \<open>
  Modelled from the spec: \<^verbatim>\<open>MilliSeconds\<close> converts a count of milliseconds to a
  \<^verbatim>\<open>Time\<close>; the time unit is the nanosecond.
\<close>

definition MilliSeconds :: "16 word \<Rightarrow> Time" where
  "MilliSeconds n = int (unat n) * 1000000"

text \<open>\<^verbatim>\<open>connection->HasPackets()\<close> and \<^verbatim>\<open>connection->HasPackets(packetType)\<close> through a reference.\<close>

definition conn_HasPackets :: "('q, 'p) WimaxMacQueue \<Rightarrow> 'q SubscriberStation \<Rightarrow> conn_ref \<Rightarrow> bool" where
  "conn_HasPackets qo ss c = HasPackets qo (GetQueue (conns ss c))"

definition conn_HasPacketsOf ::
  "('q, 'p) WimaxMacQueue \<Rightarrow> 'q SubscriberStation \<Rightarrow> conn_ref \<Rightarrow> HeaderType \<Rightarrow> bool" where
  "conn_HasPacketsOf qo ss c ht = HasPacketsOf qo (GetQueue (conns ss c)) ht"

text \<open>
  Modelled from the spec: \<^verbatim>\<open>ServiceFlow::HasPackets\<close>, with and without a header type, asks
  the connection the flow references.
\<close>

definition sf_HasPackets :: "('q, 'p) WimaxMacQueue \<Rightarrow> 'q SubscriberStation \<Rightarrow> ServiceFlow \<Rightarrow> bool" where
  "sf_HasPackets qo ss f = conn_HasPackets qo ss (GetConnection f)"

definition sf_HasPacketsOf ::
  "('q, 'p) WimaxMacQueue \<Rightarrow> 'q SubscriberStation \<Rightarrow> ServiceFlow \<Rightarrow> HeaderType \<Rightarrow> bool" where
  "sf_HasPacketsOf qo ss f ht = conn_HasPacketsOf qo ss (GetConnection f) ht"

subsection \<open>SelectConnection\<close>

text \<open>
  The four \<^verbatim>\<open>for\<close> statements of \<^verbatim>\<open>SelectConnection\<close> (lines 178, 196, 209 and 220), each over
  the flows of one scheduling type, returning from the function at the first flow that
  passes its test.  \<open>None\<close> means that the loop ran to its end.
\<close>

fun select_UGS ::
  "'m WimaxPhy \<Rightarrow> ('q, 'p) WimaxMacQueue \<Rightarrow> 'q SubscriberStation \<Rightarrow> ServiceFlow list \<Rightarrow> conn_ref option"
where
  "select_UGS phy qo ss [] = None"
| "select_UGS phy qo ss (f # fs) =
     (if sf_HasPackets qo ss f \<and>
         Now ss + GetFrameDuration phy > MilliSeconds (GetUnsolicitedGrantInterval f)
      then Some (GetConnection f)
      else select_UGS phy qo ss fs)"

fun select_RTPS ::
  "'m WimaxPhy \<Rightarrow> ('q, 'p) WimaxMacQueue \<Rightarrow> 'q SubscriberStation \<Rightarrow> ServiceFlow list \<Rightarrow> conn_ref option"
where
  "select_RTPS phy qo ss [] = None"
| "select_RTPS phy qo ss (f # fs) =
     (if sf_HasPacketsOf qo ss f HEADER_TYPE_GENERIC \<and>
         Now ss + GetFrameDuration phy > MilliSeconds (GetUnsolicitedPollingInterval f)
      then Some (GetConnection f)
      else select_RTPS phy qo ss fs)"

fun select_NRTPS ::
  "('q, 'p) WimaxMacQueue \<Rightarrow> 'q SubscriberStation \<Rightarrow> ServiceFlow list \<Rightarrow> conn_ref option"
where
  "select_NRTPS qo ss [] = None"
| "select_NRTPS qo ss (f # fs) =
     (if sf_HasPacketsOf qo ss f HEADER_TYPE_GENERIC
      then Some (GetConnection f)
      else select_NRTPS qo ss fs)"

fun select_BE ::
  "('q, 'p) WimaxMacQueue \<Rightarrow> 'q SubscriberStation \<Rightarrow> ServiceFlow list \<Rightarrow> conn_ref option"
where
  "select_BE qo ss [] = None"
| "select_BE qo ss (f # fs) =
     (if sf_HasPacketsOf qo ss f HEADER_TYPE_GENERIC
      then Some (GetConnection f)
      else select_BE qo ss fs)"

definition SelectConnection ::
  "'m WimaxPhy \<Rightarrow> ('q, 'p) WimaxMacQueue \<Rightarrow> 'q SubscriberStation \<Rightarrow> conn_ref option"
where
  "SelectConnection phy qo ss =
     (if conn_HasPackets qo ss (GetInitialRangingConnection ss)
      then Some (GetInitialRangingConnection ss)
      else if conn_HasPackets qo ss (GetBasicConnection ss)
      then Some (GetBasicConnection ss)
      else if conn_HasPackets qo ss (GetPrimaryConnection ss)
      then Some (GetPrimaryConnection ss)
      else case select_UGS phy qo ss (GetServiceFlows ss SF_TYPE_UGS) of
        Some c \<Rightarrow> Some c
      | None \<Rightarrow>
     (case select_RTPS phy qo ss (GetServiceFlows ss SF_TYPE_RTPS) of
        Some c \<Rightarrow> Some c
      | None \<Rightarrow>
     (case select_NRTPS qo ss (GetServiceFlows ss SF_TYPE_NRTPS) of
        Some c \<Rightarrow> Some c
      | None \<Rightarrow>
     (case select_BE qo ss (GetServiceFlows ss SF_TYPE_BE) of
        Some c \<Rightarrow> Some c
      | None \<Rightarrow>
      if conn_HasPackets qo ss (GetBroadcastConnection ss)
      then Some (GetBroadcastConnection ss)
      else None))))"

subsection \<open>Schedule\<close>

text \<open>
  The state of the \<^verbatim>\<open>while\<close> loop of \<^verbatim>\<open>Schedule\<close> (lines 88 to 151): the running
  \<^verbatim>\<open>availableSymbols\<close>, the queue of the connection and the burst built so far.
\<close>

type_synonym ('q, 'p) loop_state = "16 word \<times> 'q \<times> 'p list"

text \<open>
  One pass through the body of the loop.  The four outcomes are the four paths of the
  body: the whole head packet is sent (lines 105 to 109), a fragment is sent (lines 130
  to 135), and the two \<^verbatim>\<open>break\<close>s (line 140 and line 148).
\<close>

datatype 's iteration = SendWhole 's | SendFragment 's | FragNotPossible | NoTransport

definition loop_body ::
  "'m WimaxPhy \<Rightarrow> ('q, 'p) WimaxMacQueue \<Rightarrow> 'm \<Rightarrow> HeaderType \<Rightarrow> CidType \<Rightarrow>
   ('q, 'p) loop_state \<Rightarrow> ('q, 'p) loop_state iteration"
where
  "loop_body phy qo modulationType packetType ct s =
     (case s of (availableSymbols, q, burst) \<Rightarrow>
        let availableByte = GetNrBytes phy availableSymbols modulationType;
            requiredByte = GetFirstPacketRequiredByte qo q packetType
        in if availableByte \<ge> requiredByte then
             (case Dequeue qo q packetType of (packet, q') \<Rightarrow>
                let nrSymbolsRequired = GetNrSymbols phy (GetSize qo packet) modulationType
                in SendWhole (availableSymbols - nrSymbolsRequired, q', burst @ [packet]))
           else if ct = TRANSPORT then
             (let headerSize0 = GetFirstPacketHdrSize qo q packetType;
                  headerSize = (if \<not> CheckForFragmentation qo q packetType
                                then headerSize0 + 2 else headerSize0)
              in if availableByte > headerSize then
                   (case DequeueFragment qo q packetType availableByte of (packet, q') \<Rightarrow>
                      let nrSymbolsRequired = GetNrSymbols phy (GetSize qo packet) modulationType
                      in SendFragment (availableSymbols - nrSymbolsRequired, q', burst @ [packet]))
                 else FragNotPossible)
           else NoTransport)"

text \<open>
  The loop.  Nothing in \<^verbatim>\<open>Schedule\<close> bounds the number of passes: the loop ends when the
  queue reports no packet of the header type, or at a \<^verbatim>\<open>break\<close>.  A run that never ends
  has the value \<open>None\<close>.
\<close>

partial_function (option) schedule_loop ::
  "'m WimaxPhy \<Rightarrow> ('q, 'p) WimaxMacQueue \<Rightarrow> 'm \<Rightarrow> HeaderType \<Rightarrow> CidType \<Rightarrow>
   ('q, 'p) loop_state \<Rightarrow> ('q, 'p) loop_state option"
where
  "schedule_loop phy qo modulationType packetType ct s =
     (if HasPacketsOf qo (fst (snd s)) packetType then
        (case loop_body phy qo modulationType packetType ct s of
           SendWhole s' \<Rightarrow> schedule_loop phy qo modulationType packetType ct s'
         | SendFragment s' \<Rightarrow> schedule_loop phy qo modulationType packetType ct s'
         | FragNotPossible \<Rightarrow> Some s
         | NoTransport \<Rightarrow> Some s)
      else Some s)"

declare schedule_loop.simps [code]

text \<open>
  \<^verbatim>\<open>NS_ASSERT_MSG\<close> aborts the program when its condition is false (a build with
  assertions enabled).
\<close>

datatype error = AssertionFailed

text \<open>
  \<^verbatim>\<open>Schedule\<close>.  The result is \<open>None\<close> when the loop never ends, \<open>Some (Inl e)\<close> when the
  assertion of line 82 aborts, and \<open>Some (Inr (burst, connection, ss))\<close> otherwise: the
  burst returned, the connection reference as the call leaves it, and the station with the
  queue of the chosen connection as the loop left it.
\<close>

definition Schedule ::
  "'m WimaxPhy \<Rightarrow> ('q, 'p) WimaxMacQueue \<Rightarrow> 'q SubscriberStation \<Rightarrow>
   16 word \<Rightarrow> 'm \<Rightarrow> HeaderType \<Rightarrow> conn_ref option \<Rightarrow>
   (error + 'p list \<times> conn_ref option \<times> 'q SubscriberStation) option"
where
  "Schedule phy qo ss availableSymbols modulationType packetType connection =
     (case (case connection of
              None \<Rightarrow> Inr (SelectConnection phy qo ss)
            | Some c \<Rightarrow> if conn_HasPackets qo ss c then Inr (Some c) else Inl AssertionFailed)
      of
        Inl e \<Rightarrow> Some (Inl e)
      | Inr None \<Rightarrow> Some (Inr ([], None, ss))
      | Inr (Some c) \<Rightarrow>
          (case schedule_loop phy qo modulationType packetType (GetType (conns ss c))
                  (availableSymbols, GetQueue (conns ss c), [])
           of
             None \<Rightarrow> None
           | Some (availableSymbols', q', burst) \<Rightarrow>
               Some (Inr (burst, Some c,
                          ss\<lparr>conns := (conns ss)(c := (conns ss c)\<lparr>GetQueue := q'\<rparr>)\<rparr>))))"

text \<open>\<^verbatim>\<open>PacketBurst::GetSize\<close>: the sum of the sizes of the packets, a \<^verbatim>\<open>uint32_t\<close>.\<close>

definition total_bytes :: "('q, 'p) WimaxMacQueue \<Rightarrow> 'p list \<Rightarrow> 32 word" where
  "total_bytes qo burst = sum_list (map (GetSize qo) burst)"

subsection \<open>Named forms of the tests of the ladder\<close>

text \<open>
  The tests of the four \<^verbatim>\<open>for\<close> statements of \<^verbatim>\<open>SelectConnection\<close>, as predicates on a flow.  The
  comparison of the deadline is the strict \<^verbatim>\<open>>\<close> of lines 182 and 199.
\<close>

definition UGS_eligible ::
  "'m WimaxPhy \<Rightarrow> ('q, 'p) WimaxMacQueue \<Rightarrow> 'q SubscriberStation \<Rightarrow> ServiceFlow \<Rightarrow> bool" where
  "UGS_eligible phy qo ss f =
     (sf_HasPackets qo ss f \<and>
      MilliSeconds (GetUnsolicitedGrantInterval f) < Now ss + GetFrameDuration phy)"

definition RTPS_eligible ::
  "'m WimaxPhy \<Rightarrow> ('q, 'p) WimaxMacQueue \<Rightarrow> 'q SubscriberStation \<Rightarrow> ServiceFlow \<Rightarrow> bool" where
  "RTPS_eligible phy qo ss f =
     (sf_HasPacketsOf qo ss f HEADER_TYPE_GENERIC \<and>
      MilliSeconds (GetUnsolicitedPollingInterval f) < Now ss + GetFrameDuration phy)"

definition data_eligible ::
  "('q, 'p) WimaxMacQueue \<Rightarrow> 'q SubscriberStation \<Rightarrow> ServiceFlow \<Rightarrow> bool" where
  "data_eligible qo ss f = sf_HasPacketsOf qo ss f HEADER_TYPE_GENERIC"

text \<open>
  The eligibility of UGS and rtPS flows in the words of section 4.1 of the specification:
  the deadline is compared with \<open>\<ge>\<close>.
\<close>

definition spec_UGS_eligible ::
  "'m WimaxPhy \<Rightarrow> ('q, 'p) WimaxMacQueue \<Rightarrow> 'q SubscriberStation \<Rightarrow> ServiceFlow \<Rightarrow> bool" where
  "spec_UGS_eligible phy qo ss f =
     (sf_HasPackets qo ss f \<and>
      Now ss + GetFrameDuration phy \<ge> MilliSeconds (GetUnsolicitedGrantInterval f))"

definition spec_RTPS_eligible ::
  "'m WimaxPhy \<Rightarrow> ('q, 'p) WimaxMacQueue \<Rightarrow> 'q SubscriberStation \<Rightarrow> ServiceFlow \<Rightarrow> bool" where
  "spec_RTPS_eligible phy qo ss f =
     (sf_HasPacketsOf qo ss f HEADER_TYPE_GENERIC \<and>
      Now ss + GetFrameDuration phy \<ge> MilliSeconds (GetUnsolicitedPollingInterval f))"

text \<open>
  The priority ladder in the words of section 4.1: eight levels, each with the candidate
  it offers (if any), and the first level that offers a candidate wins.
\<close>

definition fixed_candidate ::
  "('q, 'p) WimaxMacQueue \<Rightarrow> 'q SubscriberStation \<Rightarrow> conn_ref \<Rightarrow> conn_ref option" where
  "fixed_candidate qo ss c = (if conn_HasPackets qo ss c then Some c else None)"

definition flow_candidate ::
  "(ServiceFlow \<Rightarrow> bool) \<Rightarrow> ServiceFlow list \<Rightarrow> conn_ref option" where
  "flow_candidate eligible fs = map_option GetConnection (find eligible fs)"

definition ladder ::
  "'m WimaxPhy \<Rightarrow> ('q, 'p) WimaxMacQueue \<Rightarrow> 'q SubscriberStation \<Rightarrow> conn_ref option list" where
  "ladder phy qo ss =
     [fixed_candidate qo ss (GetInitialRangingConnection ss),
      fixed_candidate qo ss (GetBasicConnection ss),
      fixed_candidate qo ss (GetPrimaryConnection ss),
      flow_candidate (UGS_eligible phy qo ss) (GetServiceFlows ss SF_TYPE_UGS),
      flow_candidate (RTPS_eligible phy qo ss) (GetServiceFlows ss SF_TYPE_RTPS),
      flow_candidate (data_eligible qo ss) (GetServiceFlows ss SF_TYPE_NRTPS),
      flow_candidate (data_eligible qo ss) (GetServiceFlows ss SF_TYPE_BE),
      fixed_candidate qo ss (GetBroadcastConnection ss)]"

fun first_match :: "'a option list \<Rightarrow> 'a option" where
  "first_match [] = None"
| "first_match (None # xs) = first_match xs"
| "first_match (Some x # xs) = Some x"

subsection \<open>Named forms for the packing loop\<close>

text \<open>
  Subtraction that stops at zero, in the words of the numeric edge cases of section 4.2
  (``successive subtractions must saturate at zero rather than underflow'').
\<close>

definition saturating_sub :: "16 word \<Rightarrow> 16 word \<Rightarrow> 16 word" where
  "saturating_sub a b = (if b \<le> a then a - b else 0)"

text \<open>
  \<open>n\<close> whole-packet dequeues in a row, each appended to the burst: what a run of the loop
  does to queue and burst when it sends whole packets only.
\<close>

fun whole_dequeues ::
  "('q, 'p) WimaxMacQueue \<Rightarrow> HeaderType \<Rightarrow> nat \<Rightarrow> 'q \<times> 'p list \<Rightarrow> 'q \<times> 'p list" where
  "whole_dequeues qo ht 0 s = s"
| "whole_dequeues qo ht (Suc n) s =
     whole_dequeues qo ht n
       (snd (Dequeue qo (fst s) ht), snd s @ [fst (Dequeue qo (fst s) ht)])"

text \<open>The header size that the fragmentation branch compares with (lines 118 to 123).\<close>

definition fragment_headerSize :: "('q, 'p) WimaxMacQueue \<Rightarrow> 'q \<Rightarrow> HeaderType \<Rightarrow> 32 word" where
  "fragment_headerSize qo q ht =
     (if CheckForFragmentation qo q ht
      then GetFirstPacketHdrSize qo q ht
      else GetFirstPacketHdrSize qo q ht + 2)"

text \<open>
  The state of the loop after \<open>n\<close> passes from a start state, each of them a pass that
  sends a packet or a fragment; \<open>None\<close> if the loop ends before.
\<close>

fun loop_passes ::
  "'m WimaxPhy \<Rightarrow> ('q, 'p) WimaxMacQueue \<Rightarrow> 'm \<Rightarrow> HeaderType \<Rightarrow> CidType \<Rightarrow> nat \<Rightarrow>
   ('q, 'p) loop_state \<Rightarrow> ('q, 'p) loop_state option"
where
  "loop_passes phy qo m ht ct 0 s = Some s"
| "loop_passes phy qo m ht ct (Suc n) s =
     (if HasPacketsOf qo (fst (snd s)) ht then
        (case loop_body phy qo m ht ct s of
           SendWhole s' \<Rightarrow> loop_passes phy qo m ht ct n s'
         | SendFragment s' \<Rightarrow> loop_passes phy qo m ht ct n s'
         | FragNotPossible \<Rightarrow> None
         | NoTransport \<Rightarrow> None)
      else None)"

subsection \<open>A concrete queue, two concrete PHYs and concrete stations\<close>

text \<open>
  Modelled from the spec: a MAC queue (wimax-mac-queue.cc is not among the sources), used
  to run the scheduler on concrete inputs.  A queue is a FIFO of SDUs; an SDU has a header
  type, the payload bytes still to send, the size of its MAC header, and the flag of a
  fragmentation in progress.  The required bytes of an SDU are payload and header, and the
  2 bytes of the fragment sub-header once a fragmentation is in progress.  A whole dequeue
  removes the first SDU of the header type and returns a packet of the required size; a
  capped dequeue returns a packet of \<open>cap\<close> bytes (header, sub-header and as much payload
  as fits, in 32-bit arithmetic) and leaves the rest of the SDU at its place with the flag
  set.  A packet is represented by its size.
\<close>

record sdu =
  sdu_type :: HeaderType
  sdu_payload :: "32 word"
  sdu_hdr :: "32 word"
  sdu_frag :: bool

fun front :: "sdu list \<Rightarrow> HeaderType \<Rightarrow> sdu option" where
  "front [] ht = None"
| "front (e # q) ht = (if sdu_type e = ht then Some e else front q ht)"

definition sdu_required :: "sdu \<Rightarrow> 32 word" where
  "sdu_required e = sdu_payload e + sdu_hdr e + (if sdu_frag e then 2 else 0)"

fun pop :: "sdu list \<Rightarrow> HeaderType \<Rightarrow> 32 word \<times> sdu list" where
  "pop [] ht = (0, [])"
| "pop (e # q) ht =
     (if sdu_type e = ht then (sdu_required e, q)
      else (fst (pop q ht), e # snd (pop q ht)))"

fun pop_fragment :: "sdu list \<Rightarrow> HeaderType \<Rightarrow> 32 word \<Rightarrow> 32 word \<times> sdu list" where
  "pop_fragment [] ht cap = (0, [])"
| "pop_fragment (e # q) ht cap =
     (if sdu_type e = ht
      then (cap, e\<lparr>sdu_payload := sdu_payload e - (cap - sdu_hdr e - 2), sdu_frag := True\<rparr> # q)
      else (fst (pop_fragment q ht cap), e # snd (pop_fragment q ht cap)))"

definition list_queue :: "(sdu list, 32 word) WimaxMacQueue" where
  "list_queue =
     \<lparr>HasPackets = (\<lambda>q. q \<noteq> []),
      HasPacketsOf = (\<lambda>q ht. front q ht \<noteq> None),
      GetFirstPacketRequiredByte = (\<lambda>q ht. case front q ht of None \<Rightarrow> 0 | Some e \<Rightarrow> sdu_required e),
      GetFirstPacketHdrSize = (\<lambda>q ht. case front q ht of None \<Rightarrow> 0 | Some e \<Rightarrow> sdu_hdr e),
      CheckForFragmentation = (\<lambda>q ht. case front q ht of None \<Rightarrow> False | Some e \<Rightarrow> sdu_frag e),
      Dequeue = pop,
      DequeueFragment = pop_fragment,
      GetSize = (\<lambda>p. p)\<rparr>"

text \<open>An SDU of \<open>n\<close> payload bytes under a header of \<open>h\<close> bytes, not yet fragmented.\<close>

definition fresh_sdu :: "HeaderType \<Rightarrow> 32 word \<Rightarrow> 32 word \<Rightarrow> sdu" where
  "fresh_sdu ht n h = \<lparr>sdu_type = ht, sdu_payload = n, sdu_hdr = h, sdu_frag = False\<rparr>"

text \<open>
  The PHY of the scenarios of section 8 of the specification: one byte per symbol,
  whatever the modulation.  The symbol count of more bytes than 65535 is 65535.
\<close>

definition unit_phy :: "unit WimaxPhy" where
  "unit_phy =
     \<lparr>GetNrBytes = (\<lambda>s m. ucast s),
      GetNrSymbols = (\<lambda>b m. if b \<le> 65535 then ucast b else 65535),
      GetFrameDuration = 5000000\<rparr>"

text \<open>
  A PHY whose two conversions use different rates: a grant of \<open>s\<close> symbols is worth
  \<open>12 * s\<close> bytes, and \<open>b\<close> bytes cost \<open>b / 10\<close> symbols, rounded up.  It meets the
  contract of section 6 of the specification: \<open>GetNrBytes\<close> is monotone, \<open>GetNrSymbols\<close>
  rounds up, and the byte budget of the symbols charged for \<open>b\<close> bytes is at least \<open>b\<close>
  (for every \<open>b\<close> whose symbol count fits 16 bits).
\<close>

definition coarse_phy :: "unit WimaxPhy" where
  "coarse_phy =
     \<lparr>GetNrBytes = (\<lambda>s m. 12 * ucast s),
      GetNrSymbols = (\<lambda>b m. ucast ((b + 9) div 10)),
      GetFrameDuration = 5000000\<rparr>"

text \<open>
  A station over the list queue.  The references 0, 1, 2 and 3 are the initial-ranging,
  basic, primary and broadcast connections, every other reference is a transport
  connection; \<open>qs ! c\<close> is the queue of connection \<open>c\<close> (empty beyond the list).
\<close>

definition type_of_ref :: "conn_ref \<Rightarrow> CidType" where
  "type_of_ref c =
     (if c = 0 then INITIAL_RANGING else if c = 1 then BASIC else if c = 2 then PRIMARY
      else if c = 3 then BROADCAST else TRANSPORT)"

definition station_of :: "sdu list list \<Rightarrow> ServiceFlow list \<Rightarrow> Time \<Rightarrow> sdu list SubscriberStation" where
  "station_of qs fs t =
     \<lparr>GetInitialRangingConnection = 0, GetBasicConnection = 1, GetPrimaryConnection = 2,
      GetBroadcastConnection = 3, serviceFlows = fs,
      conns = (\<lambda>c. \<lparr>GetType = type_of_ref c, GetQueue = (if c < length qs then qs ! c else [])\<rparr>),
      Now = t\<rparr>"

definition flow :: "SchedulingType \<Rightarrow> conn_ref \<Rightarrow> 16 word \<Rightarrow> ServiceFlow" where
  "flow t c interval =
     \<lparr>GetSchedulingType = t, GetConnection = c,
      GetUnsolicitedGrantInterval = interval, GetUnsolicitedPollingInterval = interval\<rparr>"

text \<open>Scenario S1: a 40-byte packet on the initial-ranging connection, a 1500-byte packet on a BE flow.\<close>

definition station_S1 :: "sdu list SubscriberStation" where
  "station_S1 =
     station_of [[fresh_sdu HEADER_TYPE_GENERIC 34 6], [], [], [], [fresh_sdu HEADER_TYPE_GENERIC 1494 6]]
       [flow SF_TYPE_BE 4 0] 0"

text \<open>Scenario S4: a 50-byte packet on the basic connection.\<close>

definition station_S4 :: "sdu list SubscriberStation" where
  "station_S4 = station_of [[], [fresh_sdu HEADER_TYPE_GENERIC 44 6]] [] 0"

text \<open>
  Scenario S5: a UGS flow whose grant interval (1000 ms) lies far ahead, and an rtPS flow
  whose polling interval (2 ms) has passed at time 0 with a frame of 5 ms; both have
  packets.
\<close>

definition station_S5 :: "sdu list SubscriberStation" where
  "station_S5 =
     station_of [[], [], [], [], [fresh_sdu HEADER_TYPE_GENERIC 94 6], [fresh_sdu HEADER_TYPE_GENERIC 94 6]]
       [flow SF_TYPE_UGS 4 1000, flow SF_TYPE_RTPS 5 2] 0"

text \<open>
  A UGS flow and an rtPS flow, both with packets, whose intervals of 10 ms equal the
  current time (5 ms) plus the frame duration (5 ms).
\<close>

definition station_boundary :: "sdu list SubscriberStation" where
  "station_boundary =
     station_of [[], [], [], [], [fresh_sdu HEADER_TYPE_GENERIC 94 6], [fresh_sdu HEADER_TYPE_GENERIC 94 6]]
       [flow SF_TYPE_UGS 4 10, flow SF_TYPE_RTPS 5 10] 5000000"

text \<open>No packet anywhere.\<close>

definition station_idle :: "sdu list SubscriberStation" where
  "station_idle = station_of [] [flow SF_TYPE_BE 4 0] 0"

text \<open>A transport connection that holds one bandwidth request and no data packet.\<close>

definition station_request :: "sdu list SubscriberStation" where
  "station_request =
     station_of [[], [], [], [], [fresh_sdu HEADER_TYPE_BANDWIDTH_REQUEST 0 6]] [flow SF_TYPE_BE 4 0] 0"

text \<open>A basic connection whose head packet needs 0 bytes.\<close>

definition station_degenerate :: "sdu list SubscriberStation" where
  "station_degenerate = station_of [[], [fresh_sdu HEADER_TYPE_GENERIC 0 0]] [] 0"

text \<open>Two 12-byte packets on the basic connection.\<close>

definition station_two :: "sdu list SubscriberStation" where
  "station_two =
     station_of [[], [fresh_sdu HEADER_TYPE_GENERIC 6 6, fresh_sdu HEADER_TYPE_GENERIC 6 6]] [] 0"

section \<open>Properties\<close>

subsection \<open>Unfolding the loop\<close>

lemma schedule_loop_not_entered:
  "\<not> HasPacketsOf qo q ht \<Longrightarrow> schedule_loop phy qo m ht ct (a, q, b) = Some (a, q, b)"
  by (subst schedule_loop.simps) simp

lemma schedule_loop_break:
  "loop_body phy qo m ht ct s = FragNotPossible \<or> loop_body phy qo m ht ct s = NoTransport
   \<Longrightarrow> schedule_loop phy qo m ht ct s = Some s"
  by (subst schedule_loop.simps) auto

lemma schedule_loop_continue:
  "HasPacketsOf qo (fst (snd s)) ht \<Longrightarrow>
   loop_body phy qo m ht ct s = SendWhole s' \<or> loop_body phy qo m ht ct s = SendFragment s'
   \<Longrightarrow> schedule_loop phy qo m ht ct s = schedule_loop phy qo m ht ct s'"
  by (subst schedule_loop.simps) auto

text \<open>
  Induction over the runs of the loop that end: a property of the state at the start of a
  run and the state at its end holds when it holds for the runs of no pass, and carries
  over from the run after a pass to the run that begins with this pass.
\<close>

lemma schedule_loop_induct [consumes 1, case_names exit continue]:
  assumes run: "schedule_loop phy qo m ht ct s = Some r"
    and exit: "\<And>s. \<not> HasPacketsOf qo (fst (snd s)) ht \<or>
                 loop_body phy qo m ht ct s = FragNotPossible \<or>
                 loop_body phy qo m ht ct s = NoTransport \<Longrightarrow> P s s"
    and continue: "\<And>s s' r. HasPacketsOf qo (fst (snd s)) ht \<Longrightarrow>
                 loop_body phy qo m ht ct s = SendWhole s' \<or>
                 loop_body phy qo m ht ct s = SendFragment s' \<Longrightarrow>
                 P s' r \<Longrightarrow> P s r"
  shows "P s r"
proof -
  have "phy' = phy \<and> qo' = qo \<and> m' = m \<and> ht' = ht \<and> ct' = ct \<longrightarrow> P s r"
    if "schedule_loop phy' qo' m' ht' ct' s = Some r" for phy' qo' m' ht' ct'
    using that
  proof (induction phy' qo' m' ht' ct' s r rule: schedule_loop.raw_induct [rotated 1, consumes 1])
    case (1 loop phy' qo' m' ht' ct' s r)
    show ?case
    proof (intro impI, elim conjE)
      assume par: "phy' = phy" "qo' = qo" "m' = m" "ht' = ht" "ct' = ct"
      note IH = 1(1) [of phy qo m ht ct, simplified]
      have eq: "(if HasPacketsOf qo (fst (snd s)) ht
                 then case loop_body phy qo m ht ct s of
                        SendWhole s' \<Rightarrow> loop phy qo m ht ct s'
                      | SendFragment s' \<Rightarrow> loop phy qo m ht ct s'
                      | _ \<Rightarrow> Some s
                 else Some s) = Some r"
        using 1(2) unfolding par .
      show "P s r"
      proof (cases "HasPacketsOf qo (fst (snd s)) ht")
        case False
        with eq have "r = s" by simp
        with False exit [of s] show ?thesis by simp
      next
        case True
        show ?thesis
        proof (cases "loop_body phy qo m ht ct s")
          case (SendWhole s')
          with True eq have "loop phy qo m ht ct s' = Some r" by simp
          from IH [OF this] True SendWhole continue [of s s' r] show ?thesis by simp
        next
          case (SendFragment s')
          with True eq have "loop phy qo m ht ct s' = Some r" by simp
          from IH [OF this] True SendFragment continue [of s s' r] show ?thesis by simp
        next
          case FragNotPossible
          with True eq have "r = s" by simp
          with FragNotPossible exit [of s] show ?thesis by simp
        next
          case NoTransport
          with True eq have "r = s" by simp
          with NoTransport exit [of s] show ?thesis by simp
        qed
      qed
    qed
  qed
  with run show ?thesis by blast
qed

lemma schedule_loop_extends:
  assumes "schedule_loop phy qo m ht ct s = Some r"
  shows "\<exists>rest. snd (snd r) = snd (snd s) @ rest"
  using assms
proof (induction rule: schedule_loop_induct)
  case (exit s)
  show ?case by simp
next
  case (continue s s' r)
  from continue(2) have "\<exists>p. snd (snd s') = snd (snd s) @ [p]"
    by (auto simp: loop_body_def Let_def split: prod.splits if_splits)
  with continue(3) show ?case by auto
qed

lemma loop_body_not_fragment:
  "ct \<noteq> TRANSPORT \<Longrightarrow> loop_body phy qo m ht ct s \<noteq> SendFragment s'"
  by (auto simp: loop_body_def Let_def split: prod.splits if_splits)

lemma loop_body_whole:
  "loop_body phy qo m ht ct s = SendWhole s' \<Longrightarrow>
   (fst (snd s'), snd (snd s')) =
     (snd (Dequeue qo (fst (snd s)) ht), snd (snd s) @ [fst (Dequeue qo (fst (snd s)) ht)])"
  by (auto simp: loop_body_def Let_def split: prod.splits if_splits)

lemma schedule_loop_zero_budget:
  assumes "GetNrBytes phy 0 m = 0"
    and "HasPacketsOf qo q ht \<Longrightarrow> GetFirstPacketRequiredByte qo q ht \<noteq> 0"
  shows "schedule_loop phy qo m ht ct (0, q, burst) = Some (0, q, burst)"
proof (cases "HasPacketsOf qo q ht")
  case False
  then show ?thesis by (rule schedule_loop_not_entered)
next
  case True
  with assms have "loop_body phy qo m ht ct (0, q, burst) = FragNotPossible \<or>
                   loop_body phy qo m ht ct (0, q, burst) = NoTransport"
    by (simp add: loop_body_def Let_def)
  then show ?thesis by (rule schedule_loop_break)
qed

lemma loop_body_sends:
  assumes "loop_body phy qo m ht ct (a, q, b) = SendWhole (a', q', b') \<or>
           loop_body phy qo m ht ct (a, q, b) = SendFragment (a', q', b')"
  shows "\<exists>p. b' = b @ [p] \<and> a' = a - GetNrSymbols phy (GetSize qo p) m \<and>
             ((p, q') = Dequeue qo q ht \<and>
                GetFirstPacketRequiredByte qo q ht \<le> GetNrBytes phy a m \<or>
              (p, q') = DequeueFragment qo q ht (GetNrBytes phy a m))"
  using assms
  by (auto simp: loop_body_def Let_def split: prod.splits if_splits)

lemma total_bytes_snoc: "total_bytes qo (burst @ [p]) = total_bytes qo burst + GetSize qo p"
  by (simp add: total_bytes_def)

text \<open>
  \<^verbatim>\<open>Schedule\<close> and its loop.  The connection that \<^verbatim>\<open>Schedule\<close> serves is the supplied
  one, or the one \<^verbatim>\<open>SelectConnection\<close> returns; when there is one and the assertion of
  line 82 passes, the result of \<^verbatim>\<open>Schedule\<close> is the result of the loop, run with the type
  and the queue of that connection from an empty burst, and so the result of the loop from
  any state that the loop reaches after some passes.
\<close>

lemma loop_passes_run:
  "loop_passes phy qo m ht ct n s = Some s' \<Longrightarrow>
   schedule_loop phy qo m ht ct s = schedule_loop phy qo m ht ct s'"
proof (induction n arbitrary: s)
  case 0
  then show ?case by simp
next
  case (Suc n)
  from Suc.prems have has: "HasPacketsOf qo (fst (snd s)) ht"
    by (simp split: if_splits)
  from Suc.prems has obtain s1 where
    body: "loop_body phy qo m ht ct s = SendWhole s1 \<or> loop_body phy qo m ht ct s = SendFragment s1"
    and rest: "loop_passes phy qo m ht ct n s1 = Some s'"
    by (auto split: iteration.splits)
  from schedule_loop_continue [OF has body] Suc.IH [OF rest] show ?case by simp
qed

lemma Schedule_served:
  assumes "(case connection of None \<Rightarrow> SelectConnection phy qo ss | Some c' \<Rightarrow> Some c') = Some c"
    and "connection = Some c \<longrightarrow> conn_HasPackets qo ss c"
  shows "Schedule phy qo ss availableSymbols m ht connection =
           (case schedule_loop phy qo m ht (GetType (conns ss c))
                   (availableSymbols, GetQueue (conns ss c), []) of
              None \<Rightarrow> None
            | Some (availableSymbols', q', burst) \<Rightarrow>
                Some (Inr (burst, Some c,
                           ss\<lparr>conns := (conns ss)(c := (conns ss c)\<lparr>GetQueue := q'\<rparr>)\<rparr>)))"
  using assms by (cases connection) (simp_all add: Schedule_def)

lemma Schedule_served_at:
  assumes "(case connection of None \<Rightarrow> SelectConnection phy qo ss | Some c' \<Rightarrow> Some c') = Some c"
    and "connection = Some c \<longrightarrow> conn_HasPackets qo ss c"
    and "loop_passes phy qo m ht (GetType (conns ss c)) n
           (availableSymbols, GetQueue (conns ss c), []) = Some s"
  shows "Schedule phy qo ss availableSymbols m ht connection =
           (case schedule_loop phy qo m ht (GetType (conns ss c)) s of
              None \<Rightarrow> None
            | Some (availableSymbols', q', burst) \<Rightarrow>
                Some (Inr (burst, Some c,
                           ss\<lparr>conns := (conns ss)(c := (conns ss c)\<lparr>GetQueue := q'\<rparr>)\<rparr>)))"
  using Schedule_served [OF assms(1,2)] loop_passes_run [OF assms(3)] by simp

lemma Schedule_served_burst:
  assumes "(case connection of None \<Rightarrow> SelectConnection phy qo ss | Some c' \<Rightarrow> Some c') = Some c"
    and "connection = Some c \<longrightarrow> conn_HasPackets qo ss c"
    and "loop_passes phy qo m ht (GetType (conns ss c)) n
           (availableSymbols, GetQueue (conns ss c), []) = Some s"
    and "Schedule phy qo ss availableSymbols m ht connection = Some (Inr (burst', c', ss'))"
  shows "\<exists>a' q'. schedule_loop phy qo m ht (GetType (conns ss c)) s = Some (a', q', burst') \<and>
           c' = Some c \<and> GetQueue (conns ss' c) = q'"
  using assms(4) unfolding Schedule_served_at [OF assms(1,2,3)]
  by (auto split: option.splits)

lemma loop_body_degenerate:
  assumes "GetFirstPacketRequiredByte qo q ht = 0"
  shows "loop_body phy qo m ht ct (a, q, burst) =
           SendWhole (a - GetNrSymbols phy (GetSize qo (fst (Dequeue qo q ht))) m,
                      snd (Dequeue qo q ht), burst @ [fst (Dequeue qo q ht)])"
  using assms by (simp add: loop_body_def split: prod.splits)

lemma loop_body_fragmentation:
  assumes "GetNrBytes phy a m < GetFirstPacketRequiredByte qo q ht"
  shows "loop_body phy qo m ht TRANSPORT (a, q, burst) =
           (if GetNrBytes phy a m > fragment_headerSize qo q ht
            then SendFragment
                   (a - GetNrSymbols phy
                          (GetSize qo (fst (DequeueFragment qo q ht (GetNrBytes phy a m)))) m,
                    snd (DequeueFragment qo q ht (GetNrBytes phy a m)),
                    burst @ [fst (DequeueFragment qo q ht (GetNrBytes phy a m))])
            else FragNotPossible)"
proof -
  from assms have "\<not> GetFirstPacketRequiredByte qo q ht \<le> GetNrBytes phy a m"
    by simp
  then show ?thesis
    by (auto simp: loop_body_def fragment_headerSize_def Let_def split: prod.splits)
qed

subsection \<open>Evaluating the concrete queue and stations\<close>

lemma list_queue_simps:
  "HasPackets list_queue q = (q \<noteq> [])"
  "HasPacketsOf list_queue q ht = (front q ht \<noteq> None)"
  "GetFirstPacketRequiredByte list_queue q ht = (case front q ht of None \<Rightarrow> 0 | Some e \<Rightarrow> sdu_required e)"
  "GetFirstPacketHdrSize list_queue q ht = (case front q ht of None \<Rightarrow> 0 | Some e \<Rightarrow> sdu_hdr e)"
  "CheckForFragmentation list_queue q ht = (case front q ht of None \<Rightarrow> False | Some e \<Rightarrow> sdu_frag e)"
  "Dequeue list_queue = pop"
  "DequeueFragment list_queue = pop_fragment"
  "GetSize list_queue p = p"
  by (simp_all add: list_queue_def)

lemma station_of_simps:
  "GetInitialRangingConnection (station_of qs fs t) = 0"
  "GetBasicConnection (station_of qs fs t) = 1"
  "GetPrimaryConnection (station_of qs fs t) = 2"
  "GetBroadcastConnection (station_of qs fs t) = 3"
  "serviceFlows (station_of qs fs t) = fs"
  "Now (station_of qs fs t) = t"
  "GetType (conns (station_of qs fs t) c) = type_of_ref c"
  "GetQueue (conns (station_of qs fs t) c) = (if c < length qs then qs ! c else [])"
  by (simp_all add: station_of_def)

lemmas scheduler_defs =
  SelectConnection_def conn_HasPackets_def conn_HasPacketsOf_def sf_HasPackets_def
  sf_HasPacketsOf_def GetServiceFlows_def MilliSeconds_def flow_def fresh_sdu_def
  sdu_required_def type_of_ref_def

lemma unat_ucast_16_32: "unat (ucast (s :: 16 word) :: 32 word) = unat s"
proof -
  have "unat s < 2 ^ 16" using unsigned_less [of s] by simp
  then have "unat s < 2 ^ 32" by simp
  then show ?thesis by (simp add: unsigned_ucast_eq take_bit_nat_eq_self)
qed

lemma unat_ucast_32_16: "unat (b :: 32 word) < 65536 \<Longrightarrow> unat (ucast b :: 16 word) = unat b"
  by (simp add: unsigned_ucast_eq take_bit_nat_eq_self)

lemma unit_phy_fits:
  assumes "b \<le> GetNrBytes unit_phy s m"
  shows "GetNrSymbols unit_phy b m \<le> s"
proof -
  from assms have "unat b \<le> unat s"
    by (simp add: unit_phy_def word_le_nat_alt unat_ucast_16_32)
  moreover have "unat s < 65536" using unsigned_less [of s] by simp
  ultimately have small: "unat b < 65536" by simp
  then have "b \<le> 65535" by (simp add: word_le_nat_alt)
  with small \<open>unat b \<le> unat s\<close> show ?thesis
    by (simp add: unit_phy_def word_le_nat_alt unat_ucast_32_16)
qed

lemma unat_unit_symbols:
  "unat (GetNrSymbols unit_phy b m) = min 65535 (unat b)"
proof (cases "b \<le> 65535")
  case True
  then have "unat b \<le> 65535" by (simp add: word_le_nat_alt)
  with True show ?thesis by (simp add: unit_phy_def unat_ucast_32_16)
next
  case False
  then have "\<not> unat b \<le> 65535" by (simp add: word_le_nat_alt)
  with False show ?thesis by (simp add: unit_phy_def)
qed

lemma unit_phy_subadditive:
  "unat (GetNrSymbols unit_phy (a + b) m) \<le>
   unat (GetNrSymbols unit_phy a m) + unat (GetNrSymbols unit_phy b m)"
proof -
  have "unat (a + b) \<le> unat a + unat b"
    by (simp add: unat_plus_if')
  then show ?thesis by (simp add: unat_unit_symbols)
qed

lemma list_queue_whole:
  "front q ht \<noteq> None \<Longrightarrow> fst (pop q ht) = (case front q ht of None \<Rightarrow> 0 | Some e \<Rightarrow> sdu_required e)"
  by (induction q) auto

lemma list_queue_fragment:
  "front q ht \<noteq> None \<Longrightarrow> fst (pop_fragment q ht cap) = cap"
  by (induction q) auto

text \<open>The PHY \<open>coarse_phy\<close> meets the contract that section 6 of the specification states.\<close>

lemma unat_coarse_bytes: "unat (GetNrBytes coarse_phy s m) = 12 * unat s"
proof -
  have "unat s < 65536" using unsigned_less [of s] by simp
  then have "unat (12 :: 32 word) * unat (ucast s :: 32 word) < 2 ^ LENGTH(32)"
    by (simp add: unat_ucast_16_32)
  then have "unat (12 * (ucast s :: 32 word)) = unat (12 :: 32 word) * unat (ucast s :: 32 word)"
    by (simp only: unat_mult_lem)
  then show ?thesis by (simp add: coarse_phy_def unat_ucast_16_32)
qed

lemma unat_coarse_symbols:
  assumes "unat b \<le> 655350"
  shows "unat (GetNrSymbols coarse_phy b m) = (unat b + 9) div 10"
proof -
  from assms have "unat b + unat (9 :: 32 word) < 2 ^ LENGTH(32)" by simp
  then have "unat (b + 9) = unat b + unat (9 :: 32 word)" by (simp only: unat_add_lem)
  then have "unat ((b + 9) div 10) = (unat b + 9) div 10" by (simp add: unat_div)
  moreover from assms have "(unat b + 9) div 10 < 65536" by simp
  ultimately show ?thesis by (simp add: coarse_phy_def unat_ucast_32_16)
qed

lemma coarse_phy_contract:
  "(s \<le> s' \<longrightarrow> GetNrBytes coarse_phy s m \<le> GetNrBytes coarse_phy s' m) \<and>
   (unat b \<le> 655350 \<longrightarrow>
      unat (GetNrSymbols coarse_phy b m) = (unat b + 9) div 10 \<and>
      b \<le> GetNrBytes coarse_phy (GetNrSymbols coarse_phy b m) m)"
  by (auto simp: word_le_nat_alt unat_coarse_bytes unat_coarse_symbols)

subsection \<open>The ladder as a search\<close>

lemma select_UGS_find:
  "select_UGS phy qo ss fs = flow_candidate (UGS_eligible phy qo ss) fs"
  by (induction fs) (simp_all add: flow_candidate_def UGS_eligible_def)

lemma select_RTPS_find:
  "select_RTPS phy qo ss fs = flow_candidate (RTPS_eligible phy qo ss) fs"
  by (induction fs) (simp_all add: flow_candidate_def RTPS_eligible_def)

lemma select_NRTPS_find:
  "select_NRTPS qo ss fs = flow_candidate (data_eligible qo ss) fs"
  by (induction fs) (simp_all add: flow_candidate_def data_eligible_def)

lemma select_BE_find:
  "select_BE qo ss fs = flow_candidate (data_eligible qo ss) fs"
  by (induction fs) (simp_all add: flow_candidate_def data_eligible_def)

lemma first_match_None:
  "first_match xs = None \<longleftrightarrow> (\<forall>k<length xs. xs ! k = None)"
proof (induction xs rule: first_match.induct)
  case 1
  show ?case by simp
next
  case (2 xs)
  then show ?case by (auto simp: nth_Cons split: nat.splits)
next
  case (3 x xs)
  then show ?case by auto
qed

lemma first_match_not_below:
  "k < length xs \<Longrightarrow> xs ! k \<noteq> None \<Longrightarrow>
   \<exists>j\<le>k. first_match xs = xs ! j \<and> xs ! j \<noteq> None \<and> (\<forall>i<j. xs ! i = None)"
proof (induction xs arbitrary: k rule: first_match.induct)
  case 1
  then show ?case by simp
next
  case (2 xs)
  from 2(2,3) obtain k' where k: "k = Suc k'" by (cases k) auto
  with 2(2,3) have "k' < length xs" "xs ! k' \<noteq> None" by auto
  from 2(1) [OF this] obtain j where
    j: "j \<le> k'" "first_match xs = xs ! j" "xs ! j \<noteq> None" "\<forall>i<j. xs ! i = None"
    by blast
  have "\<forall>i<Suc j. (None # xs) ! i = None"
    using j(4) by (auto simp: nth_Cons split: nat.splits)
  with j k have "Suc j \<le> k \<and> first_match (None # xs) = (None # xs) ! Suc j \<and>
      (None # xs) ! Suc j \<noteq> None \<and> (\<forall>i<Suc j. (None # xs) ! i = None)"
    by simp
  then show ?case by blast
next
  case (3 x xs)
  have "0 \<le> k \<and> first_match (Some x # xs) = (Some x # xs) ! 0 \<and> (Some x # xs) ! 0 \<noteq> None \<and>
        (\<forall>i<0. (Some x # xs) ! i = None)"
    by simp
  then show ?case by blast
qed

subsection \<open>No eligible connection\<close>

text \<open>
  Claim C9.  When \<^verbatim>\<open>Schedule\<close> is called with a null connection reference and
  \<^verbatim>\<open>SelectConnection\<close> returns none, the call returns (it neither aborts nor runs forever)
  an empty burst, the connection reference is still null, and the station is as it was:
  nothing is dequeued.  A further call in the state and with the reference that the first
  call left, with any grant, modulation and header type, again returns an empty burst and
  changes nothing.
\<close>

theorem Schedule_nothing_selected:
  assumes "SelectConnection phy qo ss = None"
  shows "Schedule phy qo ss availableSymbols m ht None = Some (Inr ([], None, ss)) \<and>
         (\<forall>burst connection ss'.
            Schedule phy qo ss availableSymbols m ht None = Some (Inr (burst, connection, ss')) \<longrightarrow>
            Schedule phy qo ss' availableSymbols' m' ht' connection = Some (Inr ([], None, ss')))"
  using assms by (simp add: Schedule_def)

theorem Schedule_nothing_selected_witness:
  "SelectConnection unit_phy list_queue station_idle = None \<and>
   Schedule unit_phy list_queue station_idle 100 () HEADER_TYPE_GENERIC None =
     Some (Inr ([], None, station_idle))"
  using Schedule_nothing_selected [of unit_phy list_queue station_idle 100 "()" HEADER_TYPE_GENERIC]
  by (simp add: station_idle_def scheduler_defs list_queue_simps station_of_simps)

subsection \<open>A supplied connection without packets of the header type\<close>

text \<open>
  Claim C10.  The assertion of line 82 asks \<^verbatim>\<open>HasPackets()\<close> without a header type, the
  loop asks \<^verbatim>\<open>HasPackets(packetType)\<close>.  For a supplied connection that has packets, but
  none of the header type of the call, the assertion passes, the loop is not entered, and
  \<^verbatim>\<open>Schedule\<close> returns an empty burst with the connection reference and the station
  unchanged.
\<close>

theorem Schedule_other_header_type:
  assumes "conn_HasPackets qo ss c" and "\<not> conn_HasPacketsOf qo ss c ht"
  shows "Schedule phy qo ss availableSymbols m ht (Some c) = Some (Inr ([], Some c, ss))"
  using assms
  by (simp add: Schedule_def conn_HasPacketsOf_def schedule_loop_not_entered)

theorem Schedule_other_header_type_witness:
  "conn_HasPackets list_queue station_request 4 \<and>
   \<not> conn_HasPacketsOf list_queue station_request 4 HEADER_TYPE_GENERIC \<and>
   Schedule unit_phy list_queue station_request 20 () HEADER_TYPE_GENERIC (Some 4) =
     Some (Inr ([], Some 4, station_request))"
  using Schedule_other_header_type [of list_queue station_request 4 HEADER_TYPE_GENERIC unit_phy 20 "()"]
  by (simp add: station_request_def scheduler_defs list_queue_simps station_of_simps)

subsection \<open>A head packet that needs no bytes\<close>

text \<open>
  Claim C8.  Let \<^verbatim>\<open>Schedule\<close> serve connection \<open>c\<close> (supplied, or selected), and let its loop
  have reached, after any number of passes, a state whose queue has packets of the header
  type and reports 0 required bytes for the head-of-line packet.  Then, whatever the
  symbols left and the type of the connection, the pass takes the whole-packet path: the
  packet is dequeued whole and appended, its symbol cost subtracted, and \<^verbatim>\<open>Schedule\<close>
  returns what the loop returns from there.  Every burst that \<^verbatim>\<open>Schedule\<close> returns holds
  the packet right after the packets sent before it; and if the queue then has no packet of
  the header type left, \<^verbatim>\<open>Schedule\<close> returns exactly the burst with the packet at its end,
  the connection, and the station with the queue the dequeue left.
\<close>

theorem Schedule_degenerate_head:
  assumes served: "(case connection of None \<Rightarrow> SelectConnection phy qo ss | Some c' \<Rightarrow> Some c') = Some c"
    and asserted: "connection = Some c \<longrightarrow> conn_HasPackets qo ss c"
    and reached: "loop_passes phy qo m ht (GetType (conns ss c)) n
                    (availableSymbols, GetQueue (conns ss c), []) = Some (a, q, burst)"
    and has: "HasPacketsOf qo q ht"
    and zero: "GetFirstPacketRequiredByte qo q ht = 0"
  shows "loop_body phy qo m ht (GetType (conns ss c)) (a, q, burst) =
           SendWhole (a - GetNrSymbols phy (GetSize qo (fst (Dequeue qo q ht))) m,
                      snd (Dequeue qo q ht), burst @ [fst (Dequeue qo q ht)]) \<and>
         Schedule phy qo ss availableSymbols m ht connection =
           (case schedule_loop phy qo m ht (GetType (conns ss c))
                   (a - GetNrSymbols phy (GetSize qo (fst (Dequeue qo q ht))) m,
                    snd (Dequeue qo q ht), burst @ [fst (Dequeue qo q ht)]) of
              None \<Rightarrow> None
            | Some (availableSymbols', q', burst') \<Rightarrow>
                Some (Inr (burst', Some c,
                           ss\<lparr>conns := (conns ss)(c := (conns ss c)\<lparr>GetQueue := q'\<rparr>)\<rparr>))) \<and>
         (\<forall>burst' c' ss'.
            Schedule phy qo ss availableSymbols m ht connection = Some (Inr (burst', c', ss')) \<longrightarrow>
            (\<exists>rest. burst' = burst @ fst (Dequeue qo q ht) # rest)) \<and>
         (\<not> HasPacketsOf qo (snd (Dequeue qo q ht)) ht \<longrightarrow>
            Schedule phy qo ss availableSymbols m ht connection =
              Some (Inr (burst @ [fst (Dequeue qo q ht)], Some c,
                         ss\<lparr>conns := (conns ss)(c := (conns ss c)\<lparr>GetQueue := snd (Dequeue qo q ht)\<rparr>)\<rparr>)))"
proof -
  let ?ct = "GetType (conns ss c)"
  let ?s' = "(a - GetNrSymbols phy (GetSize qo (fst (Dequeue qo q ht))) m,
              snd (Dequeue qo q ht), burst @ [fst (Dequeue qo q ht)])"
  have body: "loop_body phy qo m ht ?ct (a, q, burst) = SendWhole ?s'"
    using zero by (rule loop_body_degenerate)
  have step: "schedule_loop phy qo m ht ?ct (a, q, burst) = schedule_loop phy qo m ht ?ct ?s'"
    using has body by (intro schedule_loop_continue) simp_all
  have sched: "Schedule phy qo ss availableSymbols m ht connection =
           (case schedule_loop phy qo m ht ?ct ?s' of
              None \<Rightarrow> None
            | Some (availableSymbols', q', burst') \<Rightarrow>
                Some (Inr (burst', Some c,
                           ss\<lparr>conns := (conns ss)(c := (conns ss c)\<lparr>GetQueue := q'\<rparr>)\<rparr>)))"
    using Schedule_served_at [OF served asserted reached] step by simp
  have starts: "\<exists>rest. burst' = burst @ fst (Dequeue qo q ht) # rest"
    if "Schedule phy qo ss availableSymbols m ht connection = Some (Inr (burst', c', ss'))"
    for burst' c' ss'
  proof -
    from Schedule_served_burst [OF served asserted reached that] step
    obtain a' q' where "schedule_loop phy qo m ht ?ct ?s' = Some (a', q', burst')"
      by auto
    from schedule_loop_extends [OF this] show ?thesis by simp
  qed
  have last: "Schedule phy qo ss availableSymbols m ht connection =
              Some (Inr (burst @ [fst (Dequeue qo q ht)], Some c,
                         ss\<lparr>conns := (conns ss)(c := (conns ss c)\<lparr>GetQueue := snd (Dequeue qo q ht)\<rparr>)\<rparr>))"
    if "\<not> HasPacketsOf qo (snd (Dequeue qo q ht)) ht"
  proof -
    from that have "schedule_loop phy qo m ht ?ct ?s' = Some ?s'"
      by (rule schedule_loop_not_entered)
    with sched show ?thesis by simp
  qed
  from body sched starts last show ?thesis by blast
qed

theorem Schedule_degenerate_head_witness:
  "SelectConnection unit_phy list_queue station_degenerate = Some 1 \<and>
   loop_passes unit_phy list_queue () HEADER_TYPE_GENERIC (GetType (conns station_degenerate 1)) 0
     (0, GetQueue (conns station_degenerate 1), []) = Some (0, [fresh_sdu HEADER_TYPE_GENERIC 0 0], []) \<and>
   HasPacketsOf list_queue [fresh_sdu HEADER_TYPE_GENERIC 0 0] HEADER_TYPE_GENERIC \<and>
   GetFirstPacketRequiredByte list_queue [fresh_sdu HEADER_TYPE_GENERIC 0 0] HEADER_TYPE_GENERIC = 0 \<and>
   Dequeue list_queue [fresh_sdu HEADER_TYPE_GENERIC 0 0] HEADER_TYPE_GENERIC = (0, []) \<and>
   Schedule unit_phy list_queue station_degenerate 0 () HEADER_TYPE_GENERIC None =
     Some (Inr ([0], Some 1,
       station_degenerate\<lparr>conns := (conns station_degenerate)
          (1 := (conns station_degenerate 1)\<lparr>GetQueue := []\<rparr>)\<rparr>))"
proof -
  have served: "(case None of None \<Rightarrow> SelectConnection unit_phy list_queue station_degenerate
                 | Some c' \<Rightarrow> Some c') = Some 1"
    by (simp add: station_degenerate_def scheduler_defs list_queue_simps station_of_simps)
  have asserted: "None = Some (1 :: conn_ref) \<longrightarrow> conn_HasPackets list_queue station_degenerate 1"
    by simp
  have reached: "loop_passes unit_phy list_queue () HEADER_TYPE_GENERIC
      (GetType (conns station_degenerate 1)) 0 (0, GetQueue (conns station_degenerate 1), []) =
      Some (0, [fresh_sdu HEADER_TYPE_GENERIC 0 0], [])"
    by (simp add: station_degenerate_def station_of_simps)
  have has: "HasPacketsOf list_queue [fresh_sdu HEADER_TYPE_GENERIC 0 0] HEADER_TYPE_GENERIC"
    by (simp add: list_queue_simps fresh_sdu_def)
  have zero: "GetFirstPacketRequiredByte list_queue [fresh_sdu HEADER_TYPE_GENERIC 0 0]
                HEADER_TYPE_GENERIC = 0"
    by (simp add: list_queue_simps fresh_sdu_def sdu_required_def)
  have deq: "Dequeue list_queue [fresh_sdu HEADER_TYPE_GENERIC 0 0] HEADER_TYPE_GENERIC = (0, [])"
    by (simp add: list_queue_simps fresh_sdu_def sdu_required_def)
  have empty: "\<not> HasPacketsOf list_queue [] HEADER_TYPE_GENERIC"
    by (simp add: list_queue_simps)
  let ?d = "Dequeue list_queue [fresh_sdu HEADER_TYPE_GENERIC 0 0] HEADER_TYPE_GENERIC"
  from Schedule_degenerate_head [OF served asserted reached has zero]
  have "\<not> HasPacketsOf list_queue (snd ?d) HEADER_TYPE_GENERIC \<longrightarrow>
        Schedule unit_phy list_queue station_degenerate 0 () HEADER_TYPE_GENERIC None =
          Some (Inr ([] @ [fst ?d], Some 1,
            station_degenerate\<lparr>conns := (conns station_degenerate)
              (1 := (conns station_degenerate 1)\<lparr>GetQueue := snd ?d\<rparr>)\<rparr>))"
    by blast
  with empty
  have "Schedule unit_phy list_queue station_degenerate 0 () HEADER_TYPE_GENERIC None =
     Some (Inr ([0], Some 1,
       station_degenerate\<lparr>conns := (conns station_degenerate)
          (1 := (conns station_degenerate 1)\<lparr>GetQueue := []\<rparr>)\<rparr>))"
    by (simp add: deq)
  with served reached has zero deq show ?thesis by simp
qed

subsection \<open>The fragmentation branch\<close>

text \<open>
  Claim C5.  Let \<^verbatim>\<open>Schedule\<close> serve a connection \<open>c\<close> of type TRANSPORT, and let its loop
  have reached, after any number of passes, a state with packets of the header type whose
  byte budget \<open>A\<close> is below the required bytes \<open>R\<close>.  The header cost \<open>H\<close> is the header
  size of the first packet, plus 2 (in 32-bit arithmetic) exactly when no fragmentation is
  in progress for the header type.  If \<open>A > H\<close>, a fragment capped at \<open>A\<close> bytes is dequeued
  and appended and its symbol cost subtracted, \<^verbatim>\<open>Schedule\<close> returns what the loop returns
  from there, and every burst that \<^verbatim>\<open>Schedule\<close> returns holds the fragment right after
  the packets sent before it.  If not, the pass is the \<^verbatim>\<open>break\<close> of line 140 and
  \<^verbatim>\<open>Schedule\<close> returns the burst built so far, with the queue of the connection as the
  pass found it: the head packet is still at its front.
\<close>

theorem Schedule_fragmentation_branch:
  assumes served: "(case connection of None \<Rightarrow> SelectConnection phy qo ss | Some c' \<Rightarrow> Some c') = Some c"
    and asserted: "connection = Some c \<longrightarrow> conn_HasPackets qo ss c"
    and transport: "GetType (conns ss c) = TRANSPORT"
    and reached: "loop_passes phy qo m ht TRANSPORT n
                    (availableSymbols, GetQueue (conns ss c), []) = Some (a, q, burst)"
    and has: "HasPacketsOf qo q ht"
    and short: "GetNrBytes phy a m < GetFirstPacketRequiredByte qo q ht"
  shows "fragment_headerSize qo q ht =
           (if CheckForFragmentation qo q ht then GetFirstPacketHdrSize qo q ht
            else GetFirstPacketHdrSize qo q ht + 2) \<and>
         (GetNrBytes phy a m > fragment_headerSize qo q ht \<longrightarrow>
            loop_body phy qo m ht TRANSPORT (a, q, burst) =
              SendFragment
                (a - GetNrSymbols phy
                       (GetSize qo (fst (DequeueFragment qo q ht (GetNrBytes phy a m)))) m,
                 snd (DequeueFragment qo q ht (GetNrBytes phy a m)),
                 burst @ [fst (DequeueFragment qo q ht (GetNrBytes phy a m))]) \<and>
            Schedule phy qo ss availableSymbols m ht connection =
              (case schedule_loop phy qo m ht TRANSPORT
                      (a - GetNrSymbols phy
                             (GetSize qo (fst (DequeueFragment qo q ht (GetNrBytes phy a m)))) m,
                       snd (DequeueFragment qo q ht (GetNrBytes phy a m)),
                       burst @ [fst (DequeueFragment qo q ht (GetNrBytes phy a m))]) of
                 None \<Rightarrow> None
               | Some (availableSymbols', q', burst') \<Rightarrow>
                   Some (Inr (burst', Some c,
                              ss\<lparr>conns := (conns ss)(c := (conns ss c)\<lparr>GetQueue := q'\<rparr>)\<rparr>))) \<and>
            (\<forall>burst' c' ss'.
               Schedule phy qo ss availableSymbols m ht connection = Some (Inr (burst', c', ss')) \<longrightarrow>
               (\<exists>rest. burst' =
                  burst @ fst (DequeueFragment qo q ht (GetNrBytes phy a m)) # rest))) \<and>
         (\<not> GetNrBytes phy a m > fragment_headerSize qo q ht \<longrightarrow>
            loop_body phy qo m ht TRANSPORT (a, q, burst) = FragNotPossible \<and>
            Schedule phy qo ss availableSymbols m ht connection =
              Some (Inr (burst, Some c,
                         ss\<lparr>conns := (conns ss)(c := (conns ss c)\<lparr>GetQueue := q\<rparr>)\<rparr>)))"
proof -
  let ?f = "DequeueFragment qo q ht (GetNrBytes phy a m)"
  let ?s' = "(a - GetNrSymbols phy (GetSize qo (fst ?f)) m, snd ?f, burst @ [fst ?f])"
  note body = loop_body_fragmentation [OF short, of burst]
  from reached transport
  have reached': "loop_passes phy qo m ht (GetType (conns ss c)) n
                    (availableSymbols, GetQueue (conns ss c), []) = Some (a, q, burst)"
    by simp
  note at = Schedule_served_at [OF served asserted reached', unfolded transport]
  have hdr: "fragment_headerSize qo q ht =
           (if CheckForFragmentation qo q ht then GetFirstPacketHdrSize qo q ht
            else GetFirstPacketHdrSize qo q ht + 2)"
    by (simp add: fragment_headerSize_def)
  have frag: "loop_body phy qo m ht TRANSPORT (a, q, burst) = SendFragment ?s' \<and>
      Schedule phy qo ss availableSymbols m ht connection =
        (case schedule_loop phy qo m ht TRANSPORT ?s' of
           None \<Rightarrow> None
         | Some (availableSymbols', q', burst') \<Rightarrow>
             Some (Inr (burst', Some c,
                        ss\<lparr>conns := (conns ss)(c := (conns ss c)\<lparr>GetQueue := q'\<rparr>)\<rparr>))) \<and>
      (\<forall>burst' c' ss'.
         Schedule phy qo ss availableSymbols m ht connection = Some (Inr (burst', c', ss')) \<longrightarrow>
         (\<exists>rest. burst' = burst @ fst ?f # rest))"
    if fits: "GetNrBytes phy a m > fragment_headerSize qo q ht"
  proof -
    from body fits have b: "loop_body phy qo m ht TRANSPORT (a, q, burst) = SendFragment ?s'"
      by simp
    have step: "schedule_loop phy qo m ht TRANSPORT (a, q, burst) =
                schedule_loop phy qo m ht TRANSPORT ?s'"
      using has b by (intro schedule_loop_continue) simp_all
    have sched: "Schedule phy qo ss availableSymbols m ht connection =
        (case schedule_loop phy qo m ht TRANSPORT ?s' of
           None \<Rightarrow> None
         | Some (availableSymbols', q', burst') \<Rightarrow>
             Some (Inr (burst', Some c,
                        ss\<lparr>conns := (conns ss)(c := (conns ss c)\<lparr>GetQueue := q'\<rparr>)\<rparr>)))"
      using at step by simp
    have "\<exists>rest. burst' = burst @ fst ?f # rest"
      if "Schedule phy qo ss availableSymbols m ht connection = Some (Inr (burst', c', ss'))"
      for burst' c' ss'
    proof -
      from that sched obtain a' q' where
        "schedule_loop phy qo m ht TRANSPORT ?s' = Some (a', q', burst')"
        by (auto split: option.splits)
      from schedule_loop_extends [OF this] show ?thesis by simp
    qed
    with b sched show ?thesis by blast
  qed
  have stop: "loop_body phy qo m ht TRANSPORT (a, q, burst) = FragNotPossible \<and>
      Schedule phy qo ss availableSymbols m ht connection =
        Some (Inr (burst, Some c,
                   ss\<lparr>conns := (conns ss)(c := (conns ss c)\<lparr>GetQueue := q\<rparr>)\<rparr>))"
    if "\<not> GetNrBytes phy a m > fragment_headerSize qo q ht"
  proof -
    from body that have b: "loop_body phy qo m ht TRANSPORT (a, q, burst) = FragNotPossible"
      by simp
    then have "schedule_loop phy qo m ht TRANSPORT (a, q, burst) = Some (a, q, burst)"
      by (intro schedule_loop_break) simp
    with at b show ?thesis by simp
  qed
  from hdr frag stop show ?thesis by blast
qed

theorem Schedule_fragmentation_branch_witness:
  "conn_HasPackets list_queue station_S1 4 \<and>
   GetType (conns station_S1 4) = TRANSPORT \<and>
   GetQueue (conns station_S1 4) = [fresh_sdu HEADER_TYPE_GENERIC 1494 6] \<and>
   GetNrBytes unit_phy 300 () <
     GetFirstPacketRequiredByte list_queue [fresh_sdu HEADER_TYPE_GENERIC 1494 6] HEADER_TYPE_GENERIC \<and>
   fragment_headerSize list_queue [fresh_sdu HEADER_TYPE_GENERIC 1494 6] HEADER_TYPE_GENERIC = 8 \<and>
   loop_passes unit_phy list_queue () HEADER_TYPE_GENERIC TRANSPORT 1
     (300, [fresh_sdu HEADER_TYPE_GENERIC 1494 6], []) =
     Some (0, [\<lparr>sdu_type = HEADER_TYPE_GENERIC, sdu_payload = 1202, sdu_hdr = 6, sdu_frag = True\<rparr>],
           [300]) \<and>
   fragment_headerSize list_queue
     [\<lparr>sdu_type = HEADER_TYPE_GENERIC, sdu_payload = 1202, sdu_hdr = 6, sdu_frag = True\<rparr>]
     HEADER_TYPE_GENERIC = 6 \<and>
   Schedule unit_phy list_queue station_S1 300 () HEADER_TYPE_GENERIC (Some 4) =
     Some (Inr ([300], Some 4,
       station_S1\<lparr>conns := (conns station_S1)
         (4 := (conns station_S1 4)\<lparr>GetQueue :=
            [\<lparr>sdu_type = HEADER_TYPE_GENERIC, sdu_payload = 1202, sdu_hdr = 6, sdu_frag = True\<rparr>]\<rparr>)\<rparr>))"
proof -
  let ?q0 = "[fresh_sdu HEADER_TYPE_GENERIC 1494 6]"
  let ?q1 = "[\<lparr>sdu_type = HEADER_TYPE_GENERIC, sdu_payload = 1202, sdu_hdr = 6, sdu_frag = True\<rparr>]"
  have served: "(case Some 4 of None \<Rightarrow> SelectConnection unit_phy list_queue station_S1
                 | Some c' \<Rightarrow> Some c') = Some (4 :: conn_ref)"
    by simp
  have packets: "conn_HasPackets list_queue station_S1 4"
    by (simp add: station_S1_def scheduler_defs list_queue_simps station_of_simps)
  then have asserted: "Some 4 = Some (4 :: conn_ref) \<longrightarrow> conn_HasPackets list_queue station_S1 4"
    by simp
  have transport: "GetType (conns station_S1 4) = TRANSPORT"
    by (simp add: station_S1_def station_of_simps type_of_ref_def)
  have queue: "GetQueue (conns station_S1 4) = ?q0"
    by (simp add: station_S1_def station_of_simps)
  have reached0: "loop_passes unit_phy list_queue () HEADER_TYPE_GENERIC TRANSPORT 0
      (300, GetQueue (conns station_S1 4), []) = Some (300, ?q0, [])"
    by (simp add: queue)
  have has0: "HasPacketsOf list_queue ?q0 HEADER_TYPE_GENERIC"
    by (simp add: list_queue_simps fresh_sdu_def)
  have short0: "GetNrBytes unit_phy 300 () <
      GetFirstPacketRequiredByte list_queue ?q0 HEADER_TYPE_GENERIC"
    by (simp add: list_queue_simps fresh_sdu_def sdu_required_def unit_phy_def)
  have hdr0: "fragment_headerSize list_queue ?q0 HEADER_TYPE_GENERIC = 8"
    by (simp add: fragment_headerSize_def list_queue_simps fresh_sdu_def)
  have fits0: "GetNrBytes unit_phy 300 () > fragment_headerSize list_queue ?q0 HEADER_TYPE_GENERIC"
    by (simp add: hdr0 unit_phy_def)
  from Schedule_fragmentation_branch [OF served asserted transport reached0 has0 short0] fits0
  have body0: "loop_body unit_phy list_queue () HEADER_TYPE_GENERIC TRANSPORT (300, ?q0, []) =
      SendFragment
        (300 - GetNrSymbols unit_phy
           (GetSize list_queue
              (fst (DequeueFragment list_queue ?q0 HEADER_TYPE_GENERIC (GetNrBytes unit_phy 300 ())))) (),
         snd (DequeueFragment list_queue ?q0 HEADER_TYPE_GENERIC (GetNrBytes unit_phy 300 ())),
         [] @ [fst (DequeueFragment list_queue ?q0 HEADER_TYPE_GENERIC (GetNrBytes unit_phy 300 ()))])"
    by blast
  then have body0': "loop_body unit_phy list_queue () HEADER_TYPE_GENERIC TRANSPORT (300, ?q0, []) =
      SendFragment (0, ?q1, [300])"
    by (simp add: list_queue_simps fresh_sdu_def unit_phy_def)
  have passes1: "loop_passes unit_phy list_queue () HEADER_TYPE_GENERIC TRANSPORT 1
      (300, ?q0, []) = Some (0, ?q1, [300])"
    using has0 body0' by simp
  then have reached1: "loop_passes unit_phy list_queue () HEADER_TYPE_GENERIC TRANSPORT 1
      (300, GetQueue (conns station_S1 4), []) = Some (0, ?q1, [300])"
    by (simp only: queue)
  have has1: "HasPacketsOf list_queue ?q1 HEADER_TYPE_GENERIC"
    by (simp add: list_queue_simps)
  have short1: "GetNrBytes unit_phy 0 () <
      GetFirstPacketRequiredByte list_queue ?q1 HEADER_TYPE_GENERIC"
    by (simp add: list_queue_simps sdu_required_def unit_phy_def)
  have hdr1: "fragment_headerSize list_queue ?q1 HEADER_TYPE_GENERIC = 6"
    by (simp add: fragment_headerSize_def list_queue_simps)
  have full1: "\<not> GetNrBytes unit_phy 0 () > fragment_headerSize list_queue ?q1 HEADER_TYPE_GENERIC"
    by (simp add: hdr1 unit_phy_def)
  from Schedule_fragmentation_branch [OF served asserted transport reached1 has1 short1] full1
  have result: "Schedule unit_phy list_queue station_S1 300 () HEADER_TYPE_GENERIC (Some 4) =
     Some (Inr ([300], Some 4,
       station_S1\<lparr>conns := (conns station_S1)(4 := (conns station_S1 4)\<lparr>GetQueue := ?q1\<rparr>)\<rparr>))"
    by blast
  from packets transport queue short0 hdr0 passes1 hdr1 result show ?thesis by blast
qed

subsection \<open>Connections that are not TRANSPORT\<close>

text \<open>
  Claim C6.  Let \<^verbatim>\<open>Schedule\<close> serve a connection \<open>c\<close> whose type is not TRANSPORT.  No pass
  of its loop is a fragment dequeue.  If the loop has reached, after any number of passes,
  a state whose byte budget is below the required bytes of the head packet, \<^verbatim>\<open>Schedule\<close>
  returns at once: the burst built so far, and the station with the queue of the connection
  as that state has it, the head packet still queued.  And whatever \<^verbatim>\<open>Schedule\<close> returns,
  the burst and the queue of the connection are those reached by some number of
  whole-packet dequeues from the queue of the connection and an empty burst.
\<close>

theorem Schedule_management_never_fragments:
  assumes served: "(case connection of None \<Rightarrow> SelectConnection phy qo ss | Some c' \<Rightarrow> Some c') = Some c"
    and asserted: "connection = Some c \<longrightarrow> conn_HasPackets qo ss c"
    and management: "GetType (conns ss c) \<noteq> TRANSPORT"
  shows "(\<forall>s s'. loop_body phy qo m ht (GetType (conns ss c)) s \<noteq> SendFragment s') \<and>
         (\<forall>n a q burst.
            loop_passes phy qo m ht (GetType (conns ss c)) n
              (availableSymbols, GetQueue (conns ss c), []) = Some (a, q, burst) \<and>
            GetNrBytes phy a m < GetFirstPacketRequiredByte qo q ht \<longrightarrow>
            Schedule phy qo ss availableSymbols m ht connection =
              Some (Inr (burst, Some c,
                         ss\<lparr>conns := (conns ss)(c := (conns ss c)\<lparr>GetQueue := q\<rparr>)\<rparr>))) \<and>
         (\<forall>burst c' ss'.
            Schedule phy qo ss availableSymbols m ht connection = Some (Inr (burst, c', ss')) \<longrightarrow>
            c' = Some c \<and>
            (\<exists>n. (GetQueue (conns ss' c), burst) =
                   whole_dequeues qo ht n (GetQueue (conns ss c), [])))"
proof -
  let ?ct = "GetType (conns ss c)"
  let ?init = "(availableSymbols, GetQueue (conns ss c), [])"
  have never: "loop_body phy qo m ht ?ct s \<noteq> SendFragment s'" for s s'
    using management by (rule loop_body_not_fragment)
  have stop: "Schedule phy qo ss availableSymbols m ht connection =
              Some (Inr (burst, Some c,
                         ss\<lparr>conns := (conns ss)(c := (conns ss c)\<lparr>GetQueue := q\<rparr>)\<rparr>))"
    if reached: "loop_passes phy qo m ht ?ct n ?init = Some (a, q, burst)"
      and short: "GetNrBytes phy a m < GetFirstPacketRequiredByte qo q ht"
    for n a q burst
  proof -
    from short have "\<not> GetFirstPacketRequiredByte qo q ht \<le> GetNrBytes phy a m"
      by simp
    with management have "loop_body phy qo m ht ?ct (a, q, burst) = NoTransport"
      by (simp add: loop_body_def Let_def)
    then have "schedule_loop phy qo m ht ?ct (a, q, burst) = Some (a, q, burst)"
      by (intro schedule_loop_break) simp
    with Schedule_served_at [OF served asserted reached] show ?thesis by simp
  qed
  have whole: "\<exists>n. (fst (snd r), snd (snd r)) = whole_dequeues qo ht n (fst (snd s), snd (snd s))"
    if "schedule_loop phy qo m ht ?ct s = Some r" for s r
    using that
  proof (induction rule: schedule_loop_induct)
    case (exit s)
    have "(fst (snd s), snd (snd s)) = whole_dequeues qo ht 0 (fst (snd s), snd (snd s))"
      by simp
    then show ?case by blast
  next
    case (continue s s' r)
    from continue(2) never have "loop_body phy qo m ht ?ct s = SendWhole s'" by simp
    from loop_body_whole [OF this] continue(3)
    obtain n where "(fst (snd r), snd (snd r)) =
        whole_dequeues qo ht n
          (snd (Dequeue qo (fst (snd s)) ht), snd (snd s) @ [fst (Dequeue qo (fst (snd s)) ht)])"
      by auto
    then have "(fst (snd r), snd (snd r)) = whole_dequeues qo ht (Suc n) (fst (snd s), snd (snd s))"
      by simp
    then show ?case by blast
  qed
  have returned: "c' = Some c \<and>
      (\<exists>n. (GetQueue (conns ss' c), burst) = whole_dequeues qo ht n (GetQueue (conns ss c), []))"
    if "Schedule phy qo ss availableSymbols m ht connection = Some (Inr (burst, c', ss'))"
    for burst c' ss'
  proof -
    have "loop_passes phy qo m ht ?ct 0 ?init = Some ?init" by simp
    from Schedule_served_burst [OF served asserted this that]
    obtain a' q' where run: "schedule_loop phy qo m ht ?ct ?init = Some (a', q', burst)"
      and c': "c' = Some c" and q': "GetQueue (conns ss' c) = q'"
      by blast
    from whole [OF run] q' c' show ?thesis by simp
  qed
  from never stop returned show ?thesis by blast
qed

theorem Schedule_management_never_fragments_witness:
  "SelectConnection unit_phy list_queue station_S4 = Some 1 \<and>
   GetType (conns station_S4 1) = BASIC \<and>
   BASIC \<noteq> TRANSPORT \<and>
   GetQueue (conns station_S4 1) = [fresh_sdu HEADER_TYPE_GENERIC 44 6] \<and>
   GetNrBytes unit_phy 20 () <
     GetFirstPacketRequiredByte list_queue [fresh_sdu HEADER_TYPE_GENERIC 44 6] HEADER_TYPE_GENERIC \<and>
   Schedule unit_phy list_queue station_S4 20 () HEADER_TYPE_GENERIC None =
     Some (Inr ([], Some 1, station_S4))"
proof -
  let ?q = "GetQueue (conns station_S4 1)"
  have selected: "SelectConnection unit_phy list_queue station_S4 = Some 1"
    by (simp add: station_S4_def scheduler_defs list_queue_simps station_of_simps)
  then have served: "(case None of None \<Rightarrow> SelectConnection unit_phy list_queue station_S4
                      | Some c' \<Rightarrow> Some c') = Some 1"
    by simp
  have asserted: "None = Some (1 :: conn_ref) \<longrightarrow> conn_HasPackets list_queue station_S4 1"
    by simp
  have type: "GetType (conns station_S4 1) = BASIC"
    by (simp add: station_S4_def station_of_simps type_of_ref_def)
  then have management: "GetType (conns station_S4 1) \<noteq> TRANSPORT"
    by simp
  have queue: "?q = [fresh_sdu HEADER_TYPE_GENERIC 44 6]"
    by (simp add: station_S4_def station_of_simps)
  have reached: "loop_passes unit_phy list_queue () HEADER_TYPE_GENERIC (GetType (conns station_S4 1)) 0
      (20, ?q, []) = Some (20, ?q, [])"
    by simp
  have short: "GetNrBytes unit_phy 20 () <
      GetFirstPacketRequiredByte list_queue [fresh_sdu HEADER_TYPE_GENERIC 44 6] HEADER_TYPE_GENERIC"
    by (simp add: list_queue_simps fresh_sdu_def sdu_required_def unit_phy_def)
  from Schedule_management_never_fragments [OF served asserted management,
         where m = "()" and ht = HEADER_TYPE_GENERIC and availableSymbols = 20]
  have "loop_passes unit_phy list_queue () HEADER_TYPE_GENERIC (GetType (conns station_S4 1)) 0
          (20, ?q, []) = Some (20, ?q, []) \<and>
        GetNrBytes unit_phy 20 () < GetFirstPacketRequiredByte list_queue ?q HEADER_TYPE_GENERIC \<longrightarrow>
        Schedule unit_phy list_queue station_S4 20 () HEADER_TYPE_GENERIC None =
          Some (Inr ([], Some 1,
            station_S4\<lparr>conns := (conns station_S4)(1 := (conns station_S4 1)\<lparr>GetQueue := ?q\<rparr>)\<rparr>))"
    by blast
  moreover from short have "GetNrBytes unit_phy 20 () <
      GetFirstPacketRequiredByte list_queue ?q HEADER_TYPE_GENERIC"
    by (simp only: queue)
  ultimately
  have "Schedule unit_phy list_queue station_S4 20 () HEADER_TYPE_GENERIC None =
          Some (Inr ([], Some 1,
            station_S4\<lparr>conns := (conns station_S4)(1 := (conns station_S4 1)\<lparr>GetQueue := ?q\<rparr>)\<rparr>))"
    using reached by blast
  then have "Schedule unit_phy list_queue station_S4 20 () HEADER_TYPE_GENERIC None =
          Some (Inr ([], Some 1, station_S4))"
    by simp
  with selected type queue short show ?thesis by simp
qed

subsection \<open>A grant of zero symbols\<close>

text \<open>
  Claim C7, amended.  Let the PHY give 0 bytes for 0 symbols, let a supplied connection
  have packets (the assertion of line 82), and let the connection that is scheduled (the
  supplied one, or the one \<^verbatim>\<open>SelectConnection\<close> picks) report required bytes other than 0
  whenever it has packets of the header type.  Then \<^verbatim>\<open>Schedule\<close> with 0 available symbols
  returns an empty burst and the station unchanged.
\<close>

theorem Schedule_zero_grant:
  assumes "GetNrBytes phy 0 m = 0"
    and "chosen = (case connection of None \<Rightarrow> SelectConnection phy qo ss | Some c \<Rightarrow> Some c)"
    and "\<forall>c. connection = Some c \<longrightarrow> conn_HasPackets qo ss c"
    and "\<forall>c. chosen = Some c \<longrightarrow> conn_HasPacketsOf qo ss c ht \<longrightarrow>
             GetFirstPacketRequiredByte qo (GetQueue (conns ss c)) ht \<noteq> 0"
  shows "Schedule phy qo ss 0 m ht connection = Some (Inr ([], chosen, ss))"
proof (cases chosen)
  case None
  with assms(2) have "connection = None" "SelectConnection phy qo ss = None"
    by (auto split: option.splits)
  with None show ?thesis by (simp add: Schedule_def)
next
  case (Some c)
  with assms(4) have "HasPacketsOf qo (GetQueue (conns ss c)) ht \<Longrightarrow>
                      GetFirstPacketRequiredByte qo (GetQueue (conns ss c)) ht \<noteq> 0"
    by (simp add: conn_HasPacketsOf_def)
  with assms(1)
  have loop: "schedule_loop phy qo m ht (GetType (conns ss c)) (0, GetQueue (conns ss c), []) =
              Some (0, GetQueue (conns ss c), [])"
    by (rule schedule_loop_zero_budget)
  show ?thesis
  proof (cases connection)
    case None
    with Some assms(2) have "SelectConnection phy qo ss = Some c" by simp
    with None Some loop show ?thesis by (simp add: Schedule_def)
  next
    case (Some c')
    with \<open>chosen = Some c\<close> assms(2) have "c' = c" by simp
    with Some assms(3) have "conn_HasPackets qo ss c" by simp
    with Some \<open>c' = c\<close> \<open>chosen = Some c\<close> loop show ?thesis by (simp add: Schedule_def)
  qed
qed

theorem Schedule_zero_grant_witness:
  "GetNrBytes unit_phy 0 () = 0 \<and>
   SelectConnection unit_phy list_queue station_S1 = Some 0 \<and>
   GetFirstPacketRequiredByte list_queue (GetQueue (conns station_S1 0)) HEADER_TYPE_GENERIC = 40 \<and>
   Schedule unit_phy list_queue station_S1 0 () HEADER_TYPE_GENERIC None =
     Some (Inr ([], Some 0, station_S1)) \<and>
   conn_HasPackets list_queue station_S1 4 \<and>
   GetType (conns station_S1 4) = TRANSPORT \<and>
   GetFirstPacketRequiredByte list_queue (GetQueue (conns station_S1 4)) HEADER_TYPE_GENERIC = 1500 \<and>
   Schedule unit_phy list_queue station_S1 0 () HEADER_TYPE_GENERIC (Some 4) =
     Some (Inr ([], Some 4, station_S1))"
  using Schedule_zero_grant [where phy = unit_phy and m = "()" and chosen = "Some 0"
          and connection = None and qo = list_queue and ss = station_S1 and ht = HEADER_TYPE_GENERIC]
        Schedule_zero_grant [where phy = unit_phy and m = "()" and chosen = "Some 4"
          and connection = "Some 4" and qo = list_queue and ss = station_S1 and ht = HEADER_TYPE_GENERIC]
  by (simp add: station_S1_def scheduler_defs list_queue_simps station_of_simps unit_phy_def)

text \<open>
  The claim as it stands fails where the head packet needs 0 bytes: granted 0 symbols, the
  station whose basic connection holds such a packet gets a burst of one packet, and the
  packet has left the queue.
\<close>

theorem Schedule_zero_grant_counterexample:
  "map_option (map_sum id fst)
     (Schedule unit_phy list_queue station_degenerate 0 () HEADER_TYPE_GENERIC None) =
   Some (Inr [0]) \<and>
   map_option (map_sum id (\<lambda>r. GetQueue (conns (snd (snd r)) 1)))
     (Schedule unit_phy list_queue station_degenerate 0 () HEADER_TYPE_GENERIC None) =
   Some (Inr []) \<and>
   GetQueue (conns station_degenerate 1) = [fresh_sdu HEADER_TYPE_GENERIC 0 0]"
  by (simp add: Schedule_def station_degenerate_def scheduler_defs list_queue_simps station_of_simps unit_phy_def
     schedule_loop.simps loop_body_def)

subsection \<open>The deadline test of UGS and rtPS flows\<close>

text \<open>
  Claim C3, as it stands, fails on the code: the comparisons of lines 182 and 199 are
  strict.  A UGS flow and an rtPS flow with packets whose interval equals the current time
  plus the frame duration are eligible in the words of the specification, and the
  \<^verbatim>\<open>for\<close> statements pass them over; with no other traffic \<^verbatim>\<open>SelectConnection\<close>
  returns none.
\<close>

theorem SelectConnection_deadline_counterexample:
  "Now station_boundary + GetFrameDuration unit_phy = MilliSeconds 10 \<and>
   GetServiceFlows station_boundary SF_TYPE_UGS = [flow SF_TYPE_UGS 4 10] \<and>
   spec_UGS_eligible unit_phy list_queue station_boundary (flow SF_TYPE_UGS 4 10) \<and>
   select_UGS unit_phy list_queue station_boundary [flow SF_TYPE_UGS 4 10] = None \<and>
   GetServiceFlows station_boundary SF_TYPE_RTPS = [flow SF_TYPE_RTPS 5 10] \<and>
   spec_RTPS_eligible unit_phy list_queue station_boundary (flow SF_TYPE_RTPS 5 10) \<and>
   select_RTPS unit_phy list_queue station_boundary [flow SF_TYPE_RTPS 5 10] = None \<and>
   SelectConnection unit_phy list_queue station_boundary = None"
  by (simp add: spec_UGS_eligible_def spec_RTPS_eligible_def station_boundary_def scheduler_defs
        list_queue_simps station_of_simps unit_phy_def)

text \<open>
  Claim C3, amended.  The UGS \<^verbatim>\<open>for\<close> statement of \<^verbatim>\<open>SelectConnection\<close> returns the
  connection of the first UGS flow whose connection has packets and for which
  \<open>now + frame_duration > unsolicited_grant_interval\<close>, and runs to its end if there is no
  such flow; the rtPS \<^verbatim>\<open>for\<close> statement does the same with packets of header type GENERIC
  and \<open>now + frame_duration > unsolicited_polling_interval\<close>.  Both comparisons are strict.
\<close>

theorem SelectConnection_deadline_strict:
  "select_UGS phy qo ss fs = map_option GetConnection (find (UGS_eligible phy qo ss) fs) \<and>
   select_RTPS phy qo ss fs = map_option GetConnection (find (RTPS_eligible phy qo ss) fs) \<and>
   UGS_eligible phy qo ss f =
     (HasPackets qo (GetQueue (conns ss (GetConnection f))) \<and>
      Now ss + GetFrameDuration phy > MilliSeconds (GetUnsolicitedGrantInterval f)) \<and>
   RTPS_eligible phy qo ss f =
     (HasPacketsOf qo (GetQueue (conns ss (GetConnection f))) HEADER_TYPE_GENERIC \<and>
      Now ss + GetFrameDuration phy > MilliSeconds (GetUnsolicitedPollingInterval f))"
  using select_UGS_find [of phy qo ss fs] select_RTPS_find [of phy qo ss fs]
  by (simp add: flow_candidate_def UGS_eligible_def RTPS_eligible_def sf_HasPackets_def
        sf_HasPacketsOf_def conn_HasPackets_def conn_HasPacketsOf_def)

theorem SelectConnection_deadline_strict_witness:
  "select_UGS unit_phy list_queue station_S5 [flow SF_TYPE_UGS 4 1000] = None \<and>
   select_RTPS unit_phy list_queue station_S5 [flow SF_TYPE_RTPS 5 2] = Some 5"
  using SelectConnection_deadline_strict [of unit_phy list_queue station_S5 "[flow SF_TYPE_UGS 4 1000]"]
  by (simp add: station_S5_def scheduler_defs list_queue_simps station_of_simps unit_phy_def)

subsection \<open>The priority ladder\<close>

text \<open>
  Claim C4.  \<^verbatim>\<open>SelectConnection\<close> returns the candidate of the first of the eight levels
  that offers one (initial ranging, basic, primary, UGS flows in registry order, rtPS
  flows, nrtPS flows, BE flows, broadcast), each level with the test the code applies at
  it.  Whenever level \<open>k\<close> offers a candidate, the result is the candidate of a level \<open>j\<close>
  not after \<open>k\<close>, the first level that offers one: no connection of a level after \<open>k\<close>
  is selected in its stead.  If no level offers a candidate the result is none.
\<close>

theorem SelectConnection_priority_ladder:
  "SelectConnection phy qo ss = first_match (ladder phy qo ss) \<and>
   length (ladder phy qo ss) = 8 \<and>
   (\<forall>k<8. ladder phy qo ss ! k \<noteq> None \<longrightarrow>
      (\<exists>j\<le>k. SelectConnection phy qo ss = ladder phy qo ss ! j \<and>
              ladder phy qo ss ! j \<noteq> None \<and> (\<forall>i<j. ladder phy qo ss ! i = None))) \<and>
   ((\<forall>k<8. ladder phy qo ss ! k = None) \<longrightarrow> SelectConnection phy qo ss = None)"
proof -
  have eq: "SelectConnection phy qo ss = first_match (ladder phy qo ss)"
    by (simp add: SelectConnection_def ladder_def fixed_candidate_def
          select_UGS_find select_RTPS_find select_NRTPS_find select_BE_find
        split: option.splits)
  have len: "length (ladder phy qo ss) = 8"
    by (simp add: ladder_def)
  have below: "\<exists>j\<le>k. SelectConnection phy qo ss = ladder phy qo ss ! j \<and>
              ladder phy qo ss ! j \<noteq> None \<and> (\<forall>i<j. ladder phy qo ss ! i = None)"
    if "k < 8" "ladder phy qo ss ! k \<noteq> None" for k
    using first_match_not_below [of k "ladder phy qo ss"] that eq len by simp
  have none: "SelectConnection phy qo ss = None" if "\<forall>k<8. ladder phy qo ss ! k = None"
    using first_match_None [of "ladder phy qo ss"] that eq len by simp
  from eq len below none show ?thesis by blast
qed

theorem SelectConnection_priority_ladder_witness:
  "ladder unit_phy list_queue station_S1 =
     [Some 0, None, None, None, None, None, Some 4, None] \<and>
   SelectConnection unit_phy list_queue station_S1 = Some 0 \<and>
   ladder unit_phy list_queue station_S5 =
     [None, None, None, None, Some 5, None, None, None] \<and>
   SelectConnection unit_phy list_queue station_S5 = Some 5"
proof -
  have 1: "ladder unit_phy list_queue station_S1 = [Some 0, None, None, None, None, None, Some 4, None]"
    by (simp add: ladder_def fixed_candidate_def flow_candidate_def UGS_eligible_def
          RTPS_eligible_def data_eligible_def station_S1_def scheduler_defs list_queue_simps
          station_of_simps unit_phy_def)
  have 5: "ladder unit_phy list_queue station_S5 = [None, None, None, None, Some 5, None, None, None]"
    by (simp add: ladder_def fixed_candidate_def flow_candidate_def UGS_eligible_def
          RTPS_eligible_def data_eligible_def station_S5_def scheduler_defs list_queue_simps
          station_of_simps unit_phy_def)
  from SelectConnection_priority_ladder [of unit_phy list_queue station_S1]
  have "SelectConnection unit_phy list_queue station_S1 = Some 0"
    unfolding 1 by simp
  moreover
  from SelectConnection_priority_ladder [of unit_phy list_queue station_S5]
  have "SelectConnection unit_phy list_queue station_S5 = Some 5"
    unfolding 5 by simp
  ultimately show ?thesis using 1 5 by simp
qed

subsection \<open>The running count of available symbols\<close>

text \<open>
  Claim C2, as it stands, fails on the code: lines 109 and 135 subtract with the plain
  \<^verbatim>\<open>-=\<close> of \<^verbatim>\<open>uint16_t\<close>, which wraps around.  With \<open>coarse_phy\<close>, one available symbol
  is worth 12 bytes, the 12-byte head packet is sent whole, its cost is 2 symbols, and the
  counter goes from 1 to 65535, not to 0.
\<close>

theorem Schedule_counter_wraps_counterexample:
  "loop_body coarse_phy list_queue () HEADER_TYPE_GENERIC BASIC
     (1, [fresh_sdu HEADER_TYPE_GENERIC 6 6], []) = SendWhole (65535, [], [12]) \<and>
   GetNrSymbols coarse_phy (GetSize list_queue 12) () = 2 \<and>
   saturating_sub 1 2 = 0 \<and>
   (65535 :: 16 word) \<noteq> saturating_sub 1 2"
  by code_simp

text \<open>
  Claim C2, amended.  In each pass of the loop that appends a packet or fragment, the
  symbol cost of the size of that packet is subtracted from the 16-bit counter modulo
  \<open>2^16\<close>: the result is the exact difference when the cost is at most the counter, and
  the counter plus 65536 minus the cost when the cost exceeds it.  It agrees with a
  subtraction that saturates at zero exactly when the cost is at most the counter.
\<close>

theorem Schedule_counter_wraps:
  assumes "loop_body phy qo m ht ct (availableSymbols, q, burst) = SendWhole (availableSymbols', q', burst') \<or>
           loop_body phy qo m ht ct (availableSymbols, q, burst) = SendFragment (availableSymbols', q', burst')"
  shows "\<exists>packet. burst' = burst @ [packet] \<and>
           availableSymbols' = availableSymbols - GetNrSymbols phy (GetSize qo packet) m \<and>
           unat availableSymbols' =
             (if GetNrSymbols phy (GetSize qo packet) m \<le> availableSymbols
              then unat availableSymbols - unat (GetNrSymbols phy (GetSize qo packet) m)
              else unat availableSymbols + 65536 - unat (GetNrSymbols phy (GetSize qo packet) m)) \<and>
           (availableSymbols' = saturating_sub availableSymbols (GetNrSymbols phy (GetSize qo packet) m)
              \<longleftrightarrow> GetNrSymbols phy (GetSize qo packet) m \<le> availableSymbols)"
proof -
  from loop_body_sends [OF assms] obtain p where
    p: "burst' = burst @ [p]" "availableSymbols' = availableSymbols - GetNrSymbols phy (GetSize qo p) m"
    by blast
  let ?c = "GetNrSymbols phy (GetSize qo p) m"
  have u: "unat (availableSymbols - ?c) =
        (if ?c \<le> availableSymbols then unat availableSymbols - unat ?c
         else unat availableSymbols + 65536 - unat ?c)"
    by (simp add: unat_sub_if' word_le_nat_alt)
  have s: "availableSymbols - ?c = saturating_sub availableSymbols ?c \<longleftrightarrow> ?c \<le> availableSymbols"
    by (auto simp: saturating_sub_def)
  from p u s show ?thesis by blast
qed

theorem Schedule_counter_wraps_witness:
  "loop_body unit_phy list_queue () HEADER_TYPE_GENERIC INITIAL_RANGING
     (100, [fresh_sdu HEADER_TYPE_GENERIC 34 6], []) = SendWhole (60, [], [40]) \<and>
   GetNrSymbols unit_phy (GetSize list_queue 40) () = 40 \<and>
   unat (60 :: 16 word) = unat (100 :: 16 word) - unat (40 :: 16 word)"
  using Schedule_counter_wraps [of unit_phy list_queue "()" HEADER_TYPE_GENERIC INITIAL_RANGING
          100 "[fresh_sdu HEADER_TYPE_GENERIC 34 6]" "[]" 60 "[]" "[40]"]
  by (simp add: loop_body_def list_queue_simps fresh_sdu_def sdu_required_def unit_phy_def)

subsection \<open>The burst fits the grant\<close>

text \<open>
  Claim C1, as it stands, fails on the code: nothing in \<^verbatim>\<open>Schedule\<close> compares the symbol
  cost of a packet with the symbols left.  With \<open>coarse_phy\<close> and a grant of one symbol, the
  counter wraps after the first 12-byte packet, the second one is sent too, and the burst
  of 24 bytes costs 3 symbols.
\<close>

theorem Schedule_burst_fits_counterexample:
  "map_option (map_sum id fst)
     (Schedule coarse_phy list_queue station_two 1 () HEADER_TYPE_GENERIC None) =
     Some (Inr [12, 12]) \<and>
   total_bytes list_queue [12, 12] = 24 \<and>
   GetNrSymbols coarse_phy 24 () = 3 \<and>
   \<not> GetNrSymbols coarse_phy (total_bytes list_queue [12, 12]) () \<le> 1"
  by code_simp

text \<open>
  Claim C1, amended.  Suppose that, for the modulation of the call, the PHY charges at
  most \<open>s\<close> symbols for any byte count within the byte budget of \<open>s\<close> symbols, and its
  symbol cost is subadditive in the byte count; and that, for the header type of the call,
  a whole dequeue returns a packet no larger than the required bytes the queue reported,
  and a capped dequeue a packet no larger than the cap.  Then every burst that \<^verbatim>\<open>Schedule\<close>
  returns costs, at its total byte length, at most the available symbols of the call.
\<close>

theorem Schedule_burst_fits:
  assumes fits: "\<And>b s. b \<le> GetNrBytes phy s m \<Longrightarrow> GetNrSymbols phy b m \<le> s"
    and subadditive: "\<And>a b. unat (GetNrSymbols phy (a + b) m) \<le>
                         unat (GetNrSymbols phy a m) + unat (GetNrSymbols phy b m)"
    and whole: "\<And>q. HasPacketsOf qo q ht \<Longrightarrow>
                  GetSize qo (fst (Dequeue qo q ht)) \<le> GetFirstPacketRequiredByte qo q ht"
    and fragment: "\<And>q cap. HasPacketsOf qo q ht \<Longrightarrow>
                  GetSize qo (fst (DequeueFragment qo q ht cap)) \<le> cap"
    and returns: "Schedule phy qo ss availableSymbols m ht connection = Some (Inr (burst, connection', ss'))"
  shows "GetNrSymbols phy (total_bytes qo burst) m \<le> availableSymbols"
proof -
  let ?cost = "\<lambda>b. unat (GetNrSymbols phy (total_bytes qo b) m)"
  have zero: "GetNrSymbols phy 0 m = 0"
    using fits [of 0 0] by simp
  have pass: "?cost (snd (snd s')) + unat (fst s') \<le> ?cost (snd (snd s)) + unat (fst s)"
    if has: "HasPacketsOf qo (fst (snd s)) ht"
      and body: "loop_body phy qo m ht ct s = SendWhole s' \<or> loop_body phy qo m ht ct s = SendFragment s'"
    for ct s s'
  proof -
    obtain a q b where s: "s = (a, q, b)" by (cases s) auto
    obtain a' q' b' where s': "s' = (a', q', b')" by (cases s') auto
    from loop_body_sends [OF body [unfolded s s']] obtain p where
      b': "b' = b @ [p]" and a': "a' = a - GetNrSymbols phy (GetSize qo p) m"
      and p: "(p, q') = Dequeue qo q ht \<and> GetFirstPacketRequiredByte qo q ht \<le> GetNrBytes phy a m \<or>
              (p, q') = DequeueFragment qo q ht (GetNrBytes phy a m)"
      by blast
    from has s have hq: "HasPacketsOf qo q ht" by simp
    have "GetSize qo p \<le> GetNrBytes phy a m"
    proof -
      from p consider
        (w) "p = fst (Dequeue qo q ht)" "GetFirstPacketRequiredByte qo q ht \<le> GetNrBytes phy a m"
        | (f) "p = fst (DequeueFragment qo q ht (GetNrBytes phy a m))"
        by (metis fst_conv)
      then show ?thesis
      proof cases
        case w
        from whole [OF hq] w show ?thesis by simp
      next
        case f
        from fragment [OF hq, of "GetNrBytes phy a m"] f show ?thesis by simp
      qed
    qed
    then have le: "GetNrSymbols phy (GetSize qo p) m \<le> a" by (rule fits)
    then have "unat a' = unat a - unat (GetNrSymbols phy (GetSize qo p) m)"
      unfolding a' by (rule unat_sub)
    moreover from le have "unat (GetNrSymbols phy (GetSize qo p) m) \<le> unat a"
      by (simp add: word_le_nat_alt)
    moreover have "?cost b' \<le> ?cost b + unat (GetNrSymbols phy (GetSize qo p) m)"
      unfolding b' total_bytes_snoc by (rule subadditive)
    ultimately show ?thesis by (simp add: s s')
  qed
  have run: "?cost (snd (snd r)) + unat (fst r) \<le> ?cost (snd (snd s)) + unat (fst s)"
    if "schedule_loop phy qo m ht ct s = Some r" for ct s r
    using that
  proof (induction rule: schedule_loop_induct)
    case (exit s)
    show ?case by simp
  next
    case (continue s s' r)
    from pass [OF continue(1,2)] continue(3) show ?case by simp
  qed
  have "?cost burst \<le> unat availableSymbols"
  proof (cases "burst = []")
    case True
    with zero show ?thesis by (simp add: total_bytes_def)
  next
    case False
    with returns obtain c a' q' where
      "schedule_loop phy qo m ht (GetType (conns ss c)) (availableSymbols, GetQueue (conns ss c), []) =
         Some (a', q', burst)"
      by (auto simp: Schedule_def split: option.splits sum.splits if_splits prod.splits)
    from run [OF this] zero show ?thesis by (simp add: total_bytes_def)
  qed
  then show ?thesis by (simp add: word_le_nat_alt)
qed

theorem Schedule_burst_fits_witness:
  "Schedule unit_phy list_queue station_S1 100 () HEADER_TYPE_GENERIC None =
     Some (Inr ([40], Some 0,
       station_S1\<lparr>conns := (conns station_S1)(0 := (conns station_S1 0)\<lparr>GetQueue := []\<rparr>)\<rparr>)) \<and>
   total_bytes list_queue [40] = 40 \<and>
   GetNrSymbols unit_phy (total_bytes list_queue [40]) () \<le> 100"
proof -
  have run: "Schedule unit_phy list_queue station_S1 100 () HEADER_TYPE_GENERIC None =
     Some (Inr ([40], Some 0,
       station_S1\<lparr>conns := (conns station_S1)(0 := (conns station_S1 0)\<lparr>GetQueue := []\<rparr>)\<rparr>))"
    by (simp add: Schedule_def station_S1_def scheduler_defs list_queue_simps station_of_simps
          unit_phy_def schedule_loop.simps loop_body_def)
  have whole: "GetSize list_queue (fst (Dequeue list_queue q HEADER_TYPE_GENERIC))
                 \<le> GetFirstPacketRequiredByte list_queue q HEADER_TYPE_GENERIC"
    if "HasPacketsOf list_queue q HEADER_TYPE_GENERIC" for q
    using that by (simp add: list_queue_simps list_queue_whole)
  have fragment: "GetSize list_queue (fst (DequeueFragment list_queue q HEADER_TYPE_GENERIC cap)) \<le> cap"
    if "HasPacketsOf list_queue q HEADER_TYPE_GENERIC" for q cap
    using that by (simp add: list_queue_simps list_queue_fragment)
  from Schedule_burst_fits [of unit_phy "()" list_queue HEADER_TYPE_GENERIC, OF unit_phy_fits
         unit_phy_subadditive whole fragment run]
  have "GetNrSymbols unit_phy (total_bytes list_queue [40]) () \<le> 100" .
  with run show ?thesis by (simp add: total_bytes_def list_queue_simps)
qed

end
